theory Spec2Isabelle
  imports Main
begin

section \<open>Python string and path operations used by entry.py\<close>

text \<open>
  Strings are character lists. Only the string methods that \<^verbatim>\<open>musicbot/entry.py\<close>
  calls are modelled, each with the argument shapes used there.
\<close>

definition split_first :: "char \<Rightarrow> string \<Rightarrow> string" where
  \<comment> \<open>\<^verbatim>\<open>s.split(c)[0]\<close>: the text before the first \<open>c\<close>, or all of \<open>s\<close>.\<close>
  "split_first c s = takeWhile (\<lambda>x. x \<noteq> c) s"

definition rsplit1 :: "char \<Rightarrow> string \<Rightarrow> string list" where
  \<comment> \<open>\<^verbatim>\<open>s.rsplit(c, 1)\<close>: split once, at the last \<open>c\<close>; a one-element list when there is none.\<close>
  "rsplit1 c s =
     (if c \<in> set s
      then [rev (tl (dropWhile (\<lambda>x. x \<noteq> c) (rev s))), rev (takeWhile (\<lambda>x. x \<noteq> c) (rev s))]
      else [s])"

definition rsplit1_first :: "char \<Rightarrow> string \<Rightarrow> string" where
  \<comment> \<open>\<^verbatim>\<open>s.rsplit(c, 1)[0]\<close>; the list is never empty.\<close>
  "rsplit1_first c s = (case rsplit1 c s of x # _ \<Rightarrow> x | [] \<Rightarrow> s)"

fun str_join :: "string \<Rightarrow> string list \<Rightarrow> string" where
  \<comment> \<open>\<^verbatim>\<open>sep.join(parts)\<close>\<close>
  "str_join sep [] = []"
| "str_join sep [x] = x"
| "str_join sep (x # y # ys) = x @ sep @ str_join sep (y # ys)"

fun index_of :: "'a \<Rightarrow> 'a list \<Rightarrow> nat option" where
  \<comment> \<open>\<^verbatim>\<open>xs.index(x)\<close>: the first position of \<open>x\<close>; \<open>None\<close> stands for ValueError.\<close>
  "index_of x [] = None"
| "index_of x (y # ys) =
     (if x = y then Some 0 else (case index_of x ys of None \<Rightarrow> None | Some i \<Rightarrow> Some (Suc i)))"

definition os_path_basename :: "string \<Rightarrow> string" where
  \<comment> \<open>\<^verbatim>\<open>os.path.basename\<close> (posixpath): the text after the last separator.\<close>
  "os_path_basename p = rev (takeWhile (\<lambda>x. x \<noteq> CHR ''/'') (rev p))"

definition os_path_join :: "string \<Rightarrow> string \<Rightarrow> string" where
  \<comment> \<open>\<^verbatim>\<open>os.path.join(a, b)\<close> (posixpath, two arguments).\<close>
  "os_path_join a b =
     (if b \<noteq> [] \<and> hd b = CHR ''/'' then b
      else if a = [] \<or> last a = CHR ''/'' then a @ b
      else a @ ''/'' @ b)"

section \<open>Exceptions and the file system\<close>

datatype exn =
    ExtractionError | OSError | ValueError | TypeError | IndexError
  | InvalidStateError | KeyError | AttributeError | RuntimeError | CancelledError

definition is_Exception :: "exn \<Rightarrow> bool" where
  \<comment> \<open>\<^verbatim>\<open>isinstance(e, Exception)\<close>. \<^verbatim>\<open>asyncio.CancelledError\<close> derives from
      \<^verbatim>\<open>BaseException\<close> (Python 3.8 and later): \<^verbatim>\<open>except Exception\<close> does not catch it, a
      bare \<^verbatim>\<open>except\<close> does.\<close>
  "is_Exception err = (err \<noteq> CancelledError)"

text \<open>
  A file is represented by what the code observes of it: its size in bytes
  (\<^verbatim>\<open>os.path.getsize\<close>) and the last eight hex digits of its MD5 digest
  (\<^verbatim>\<open>md5sum(name, 8)\<close>). The file system is the list of its paths in directory
  order, so that \<^verbatim>\<open>os.listdir\<close> has an order.
\<close>

datatype node = File (fsize: nat) (fmd5: string) | Dir (dsize: nat)

type_synonym fs = "(string \<times> node) list"

definition os_path_exists :: "fs \<Rightarrow> string \<Rightarrow> bool" where
  "os_path_exists fs p = (map_of fs p \<noteq> None)"

definition os_path_isfile :: "fs \<Rightarrow> string \<Rightarrow> bool" where
  "os_path_isfile fs p = (case map_of fs p of Some (File _ _) \<Rightarrow> True | _ \<Rightarrow> False)"

definition os_path_getsize :: "fs \<Rightarrow> string \<Rightarrow> exn + nat" where
  "os_path_getsize fs p =
     (case map_of fs p of None \<Rightarrow> Inl OSError | Some (File n _) \<Rightarrow> Inr n | Some (Dir n) \<Rightarrow> Inr n)"

definition path_ancestors :: "string \<Rightarrow> string list" where
  \<comment> \<open>The proper prefixes of a path that end before a separator: \<open>a\<close> and \<open>a/b\<close> for
      \<open>a/b/c\<close>.\<close>
  "path_ancestors p = map (\<lambda>i. take i p) (filter (\<lambda>i. p ! i = CHR ''/'') [1..<length p])"

definition os_makedirs :: "fs \<Rightarrow> string \<Rightarrow> exn + fs" where
  \<comment> \<open>Raises when the path exists or when one of its ancestors is a regular file. The
      intermediate directories it creates are not tracked: the code never inspects them.\<close>
  "os_makedirs fs p =
     (if os_path_exists fs p then Inl OSError
      else if list_ex (os_path_isfile fs) (path_ancestors p) then Inl OSError
      else Inr (fs @ [(p, Dir 0)]))"

definition dir_prefix :: "string \<Rightarrow> string" where
  "dir_prefix d = (if d \<noteq> [] \<and> last d = CHR ''/'' then d else d @ ''/'')"

definition child_name :: "string \<Rightarrow> string \<Rightarrow> string option" where
  \<comment> \<open>The name of path \<open>p\<close> inside directory \<open>d\<close>, when \<open>p\<close> lies directly in \<open>d\<close>.\<close>
  "child_name d p =
     (let pre = dir_prefix d; r = drop (length pre) p
      in if take (length pre) p = pre \<and> r \<noteq> [] \<and> CHR ''/'' \<notin> set r then Some r else None)"

definition os_listdir :: "fs \<Rightarrow> string \<Rightarrow> exn + string list" where
  \<comment> \<open>The names directly inside \<open>d\<close>, files and directories alike, in directory order;
      it raises unless \<open>d\<close> is a directory.\<close>
  "os_listdir fs d =
     (case map_of fs d of
        Some (Dir _) \<Rightarrow>
          (if d = [] then Inl OSError else Inr (List.map_filter (\<lambda>(p, _). child_name d p) fs))
      | _ \<Rightarrow> Inl OSError)"

definition os_unlink :: "fs \<Rightarrow> string \<Rightarrow> exn + fs" where
  "os_unlink fs p =
     (if os_path_isfile fs p then Inr (filter (\<lambda>(q, _). q \<noteq> p) fs) else Inl OSError)"

definition os_rename :: "fs \<Rightarrow> string \<Rightarrow> string \<Rightarrow> exn + fs" where
  \<comment> \<open>POSIX rename: the source must exist; an existing destination file is replaced.\<close>
  "os_rename fs src dst =
     (case map_of fs src of
        None \<Rightarrow> Inl OSError
      | Some n \<Rightarrow>
          (case map_of fs dst of
             Some (Dir _) \<Rightarrow> Inl OSError
           | _ \<Rightarrow> Inr (filter (\<lambda>(q, _). q \<noteq> src \<and> q \<noteq> dst) fs @ [(dst, n)])))"

definition md5sum :: "fs \<Rightarrow> string \<Rightarrow> exn + string" where
  \<comment> \<open>Modelled from the spec: \<^verbatim>\<open>utils.md5sum\<close> is imported but not part of the sources;
      section 4.4 describes it as eight hex characters of a content hash of the
      downloaded file. Here it reads the digest tail stored with the file and fails
      when there is no regular file at the path.\<close>
  "md5sum fs p = (case map_of fs p of Some (File _ h) \<Rightarrow> Inr h | _ \<Rightarrow> Inl OSError)"

section \<open>Entries, futures and the interpreter state\<close>

text \<open>
  \<^verbatim>\<open>BasePlaylistEntry\<close> holds the three fields every entry has; the subclasses extend
  it. Readiness futures live in a store indexed by handle number: \<^verbatim>\<open>asyncio.Future()\<close>
  allocates the next number. A future is pending, cancelled by its owner, or done
  with the entry as its result or with an exception.
\<close>

record base_entry =
  filename :: "string option"
  is_downloading :: bool
  waiting_futures :: "nat list"

datatype fstate = Pending | Cancelled | Result_set | Exception_set exn

datatype log_line =
    Print_started | Print_complete | Print_cached | Print_cached_different_extension
  | Print_expected_got string string | Print_traceback exn

text \<open>
  Everything outside the entry that the code reads or writes: the file system, the
  futures, the coroutines scheduled with \<^verbatim>\<open>asyncio.ensure_future\<close> that have not
  started yet, the jobs handed to the thread pool that have not finished, and what was
  printed. \<open>called\<close> is a history variable: the handles on which the entry called
  \<^verbatim>\<open>set_result\<close> or \<^verbatim>\<open>set_exception\<close>, in order.
\<close>

record world =
  files :: fs
  futures :: "nat \<Rightarrow> fstate"
  next_future :: nat
  scheduled :: nat
  executor_jobs :: nat
  called :: "nat list"
  printed :: "log_line list"

definition set_result :: "nat \<Rightarrow> (nat \<Rightarrow> fstate) \<Rightarrow> exn + (nat \<Rightarrow> fstate)" where
  \<comment> \<open>\<^verbatim>\<open>future.set_result(self)\<close>: raises on a future that is already done or cancelled.\<close>
  "set_result f st = (if st f = Pending then Inr (st(f := Result_set)) else Inl InvalidStateError)"

definition set_exception :: "exn \<Rightarrow> nat \<Rightarrow> (nat \<Rightarrow> fstate) \<Rightarrow> exn + (nat \<Rightarrow> fstate)" where
  "set_exception err f st =
     (if st f = Pending then Inr (st(f := Exception_set err)) else Inl InvalidStateError)"

definition cancel :: "nat \<Rightarrow> world \<Rightarrow> world" where
  \<comment> \<open>The owner's \<^verbatim>\<open>future.cancel()\<close>: no effect on a future that is done.\<close>
  "cancel f w =
     (if f < next_future w \<and> futures w f = Pending
      then w\<lparr>futures := (futures w)(f := Cancelled)\<rparr> else w)"

definition is_downloaded :: "'a base_entry_scheme \<Rightarrow> bool" where
  \<comment> \<open>\<^verbatim>\<open>bool(self.filename)\<close> is false for \<^verbatim>\<open>None\<close> and for the empty string.\<close>
  "is_downloaded e =
     (if is_downloading e then False
      else (case filename e of None \<Rightarrow> False | Some s \<Rightarrow> s \<noteq> []))"

definition get_ready_future ::
  "'a base_entry_scheme \<Rightarrow> world \<Rightarrow> nat \<times> 'a base_entry_scheme \<times> world" where
  \<comment> \<open>Returns the new future's handle. The fresh future is pending, so the immediate
      \<^verbatim>\<open>set_result\<close> cannot raise. \<^verbatim>\<open>ensure_future\<close> only schedules the coroutine.\<close>
  "get_ready_future e w =
     (let future = next_future w;
          w1 = w\<lparr>futures := (futures w)(future := Pending), next_future := Suc future\<rparr>
      in if is_downloaded e
         then (future, e, w1\<lparr>futures := (futures w1)(future := Result_set),
                               called := called w1 @ [future]\<rparr>)
         else (future, e\<lparr>waiting_futures := waiting_futures e @ [future]\<rparr>,
               w1\<lparr>scheduled := Suc (scheduled w1)\<rparr>))"

fun for_each_loop ::
  "(nat \<Rightarrow> (nat \<Rightarrow> fstate) \<Rightarrow> exn + (nat \<Rightarrow> fstate)) \<Rightarrow> nat list \<Rightarrow> world \<Rightarrow> world" where
  \<comment> \<open>The \<^verbatim>\<open>for\<close> loop of \<^verbatim>\<open>_for_each_future\<close>; a callback that raises leaves the
      futures as they were (both callbacks used raise before writing).\<close>
  "for_each_loop cb [] w = w"
| "for_each_loop cb (future # rest) w =
     (if futures w future = Cancelled then for_each_loop cb rest w
      else
        (case cb future (futures w) of
           Inl err \<Rightarrow>
             for_each_loop cb rest
               (w\<lparr>called := called w @ [future], printed := printed w @ [Print_traceback err]\<rparr>)
         | Inr st \<Rightarrow>
             for_each_loop cb rest (w\<lparr>futures := st, called := called w @ [future]\<rparr>)))"

definition for_each_future ::
  "(nat \<Rightarrow> (nat \<Rightarrow> fstate) \<Rightarrow> exn + (nat \<Rightarrow> fstate)) \<Rightarrow> 'a base_entry_scheme \<Rightarrow> world
     \<Rightarrow> 'a base_entry_scheme \<times> world" where
  "for_each_future cb e w =
     (let futures = waiting_futures e; e1 = e\<lparr>waiting_futures := []\<rparr>
      in (e1, for_each_loop cb futures w))"

section \<open>URLPlaylistEntry\<close>

text \<open>
  A metadata value of an entry is a live object of the bot (a channel, a member),
  seen through its class name, id and name; after \<^verbatim>\<open>from_json\<close> it can also be a
  plain string or \<^verbatim>\<open>None\<close>.
\<close>

record meta_obj =
  obj_type :: string
  obj_id :: string
  obj_name :: string

datatype meta_value = Meta_obj meta_obj | Meta_str string | Meta_None

record url_entry = base_entry +
  url :: string
  title :: string
  duration :: int
  expected_filename :: "string option"
  meta :: "(string \<times> meta_value) list"
  download_folder :: string

definition URLPlaylistEntry ::
  "string \<Rightarrow> string \<Rightarrow> string \<Rightarrow> int \<Rightarrow> string option \<Rightarrow> (string \<times> meta_value) list \<Rightarrow> url_entry" where
  \<comment> \<open>\<^verbatim>\<open>__init__(playlist, url, title, duration, expected_filename, **meta)\<close>; the first
      argument is \<^verbatim>\<open>playlist.downloader.download_folder\<close>.\<close>
  "URLPlaylistEntry folder u t d expected m =
     \<lparr>filename = None, is_downloading = False, waiting_futures = [],
      url = u, title = t, duration = d, expected_filename = expected, meta = m,
      download_folder = folder\<rparr>"

subsection \<open>Serialisation\<close>

text \<open>
  \<^verbatim>\<open>to_json\<close> builds a dictionary and \<^verbatim>\<open>from_json\<close> reads one; the JSON text between
  them is the \<^verbatim>\<open>json\<close> library's and is not modelled.
\<close>

record persisted =
  p_version :: int
  p_type :: string
  p_url :: string
  p_title :: string
  p_duration :: int
  p_downloaded :: bool
  p_filename :: "string option"
  p_meta :: "(string \<times> meta_obj) list"

fun meta_to_json :: "(string \<times> meta_value) list \<Rightarrow> exn + (string \<times> meta_obj) list" where
  \<comment> \<open>The dict comprehension over \<^verbatim>\<open>self.meta\<close>: \<^verbatim>\<open>.id\<close> of a string or of \<^verbatim>\<open>None\<close> raises.\<close>
  "meta_to_json [] = Inr []"
| "meta_to_json ((i, Meta_obj ob) # rest) =
     (case meta_to_json rest of Inl err \<Rightarrow> Inl err | Inr ms \<Rightarrow> Inr ((i, ob) # ms))"
| "meta_to_json ((i, _) # rest) = Inl AttributeError"

definition to_json :: "url_entry \<Rightarrow> exn + persisted" where
  "to_json e =
     (case meta_to_json (meta e) of
        Inl err \<Rightarrow> Inl err
      | Inr ms \<Rightarrow>
          Inr \<lparr>p_version = 1, p_type = ''URLPlaylistEntry'', p_url = url e, p_title = title e,
               p_duration = duration e, p_downloaded = is_downloaded e,
               p_filename = filename e, p_meta = ms\<rparr>)"

definition from_json ::
  "string \<Rightarrow> (string \<Rightarrow> meta_obj option) \<Rightarrow> (meta_obj \<Rightarrow> string \<Rightarrow> meta_obj option) \<Rightarrow> persisted
     \<Rightarrow> exn + url_entry" where
  \<comment> \<open>The playlist is seen through its downloader's folder, \<^verbatim>\<open>bot.get_channel\<close> and
      \<^verbatim>\<open>channel.server.get_member\<close>. The fifth constructor argument is
      \<^verbatim>\<open>expected_filename\<close>.\<close>
  "from_json folder get_channel get_member data =
     (let downloaded = p_downloaded data;
          fname = (if downloaded then p_filename data else None);
          meta1 =
            (case map_of (p_meta data) ''channel'' of
               None \<Rightarrow> []
             | Some c \<Rightarrow>
                 [(''channel'',
                   (case get_channel (obj_id c) of
                      Some ch \<Rightarrow> Meta_obj ch
                    | None \<Rightarrow> Meta_str (obj_name c)))])
      in (case map_of (p_meta data) ''author'' of
            None \<Rightarrow> Inr (URLPlaylistEntry folder (p_url data) (p_title data) (p_duration data) fname meta1)
          | Some a \<Rightarrow>
              (case map_of meta1 ''channel'' of
                 None \<Rightarrow> Inl KeyError
               | Some (Meta_obj ch) \<Rightarrow>
                   Inr (URLPlaylistEntry folder (p_url data) (p_title data) (p_duration data) fname
                          (meta1 @ [(''author'',
                             (case get_member ch (obj_id a) of
                                Some m \<Rightarrow> Meta_obj m
                              | None \<Rightarrow> Meta_None))]))
               | Some _ \<Rightarrow> Inl AttributeError)))"

subsection \<open>The real download (\_really\_download)\<close>

text \<open>
  The extractor collaborator: \<^verbatim>\<open>await extract_info(loop, url, download=True)\<close> raises
  an \<^verbatim>\<open>Exception\<close>, returns \<^verbatim>\<open>None\<close>, or returns a result; or the task is cancelled
  while it waits there, which raises \<^verbatim>\<open>CancelledError\<close> at the \<^verbatim>\<open>await\<close>. It may write to
  the file system. A result is represented by the name
  \<^verbatim>\<open>ytdl.prepare_filename(result)\<close> gives for it.
\<close>

datatype extract_outcome =
  Extract_raises | Extract_None | Extract_result string | Extract_cancelled

type_synonym downloader = "string \<Rightarrow> fs \<Rightarrow> extract_outcome \<times> fs"

definition hashed_name :: "string \<Rightarrow> string \<Rightarrow> string" where
  \<comment> \<open>\<^verbatim>\<open>h.join('-.').join(unhashed_fname.rsplit('.', 1))\<close>\<close>
  "hashed_name h unhashed_fname =
     str_join (str_join h [''-'', ''.'']) (rsplit1 CHR ''.'' unhashed_fname)"

definition really_download ::
  "downloader \<Rightarrow> bool \<Rightarrow> url_entry \<Rightarrow> world \<Rightarrow> exn option \<times> url_entry \<times> world" where
  \<comment> \<open>The first component is the exception raised, if any; the entry and the world
      are as the call leaves them, also when it raises.\<close>
  "really_download extract_info hash e w =
     (let w0 = w\<lparr>printed := printed w @ [Print_started]\<rparr> in
      case extract_info (url e) (files w0) of
        (Extract_raises, fs1) \<Rightarrow> (Some ExtractionError, e, w0\<lparr>files := fs1\<rparr>)
      | (Extract_cancelled, fs1) \<Rightarrow> (Some CancelledError, e, w0\<lparr>files := fs1\<rparr>)
      | (Extract_None, fs1) \<Rightarrow>
          (Some ExtractionError, e, w0\<lparr>files := fs1, printed := printed w0 @ [Print_complete]\<rparr>)
      | (Extract_result unhashed_fname, fs1) \<Rightarrow>
          (let w1 = w0\<lparr>files := fs1, printed := printed w0 @ [Print_complete]\<rparr>;
               e1 = e\<lparr>filename := Some unhashed_fname\<rparr>
           in if \<not> hash then (None, e1, w1)
              else
                (case md5sum fs1 unhashed_fname of
                   Inl err \<Rightarrow> (Some err, e1, w1)
                 | Inr h \<Rightarrow>
                     (let e2 = e1\<lparr>filename := Some (hashed_name h unhashed_fname)\<rparr> in
                      if os_path_isfile fs1 (hashed_name h unhashed_fname) then
                        (case os_unlink fs1 unhashed_fname of
                           Inl err \<Rightarrow> (Some err, e2, w1)
                         | Inr fs2 \<Rightarrow>
                             (case os_rename fs2 unhashed_fname (hashed_name h unhashed_fname) of
                                Inl err \<Rightarrow> (Some err, e2, w1\<lparr>files := fs2\<rparr>)
                              | Inr fs3 \<Rightarrow> (None, e2, w1\<lparr>files := fs3\<rparr>)))
                      else (None, e2, w1)))))"

subsection \<open>Cache resolution (\_download)\<close>

text \<open>
  \<^verbatim>\<open>int(await get_header(session, url, 'CONTENT-LENGTH'))\<close> either yields an integer
  or raises (the request fails, the header is missing, it does not parse, or the
  task is cancelled there); the bare \<^verbatim>\<open>except\<close> catches every one of these.
\<close>

datatype probe = Probe_fails | Probe_int int

definition download_generic ::
  "downloader \<Rightarrow> probe \<Rightarrow> url_entry \<Rightarrow> world \<Rightarrow> string \<Rightarrow> exn option \<times> url_entry \<times> world" where
  \<comment> \<open>The branch \<^verbatim>\<open>extractor == 'generic'\<close>. The directory is listed twice, as in the
      source; unpacking \<^verbatim>\<open>rsplit('.', 1)\<close> into two names raises when there is no dot.\<close>
  "download_generic extract_info pr e w expected =
     (case os_listdir (files w) (download_folder e) of
        Inl err \<Rightarrow> (Some err, e, w)
      | Inr names \<Rightarrow>
          (let flistdir = map (rsplit1_first CHR ''-'') names in
           case rsplit1 CHR ''.'' (os_path_basename expected) of
             [expected_fname_noex, fname_ex] \<Rightarrow>
               if expected_fname_noex \<in> set flistdir then
                 (let rsize = (case pr of Probe_fails \<Rightarrow> 0 | Probe_int n \<Rightarrow> n) in
                  case os_listdir (files w) (download_folder e) of
                    Inl err \<Rightarrow> (Some err, e, w)
                  | Inr names2 \<Rightarrow>
                      (case index_of expected_fname_noex flistdir of
                         None \<Rightarrow> (Some ValueError, e, w)
                       | Some i \<Rightarrow>
                           if i < length names2 then
                             (let lfile = os_path_join (download_folder e) (names2 ! i) in
                              case os_path_getsize (files w) lfile of
                                Inl err \<Rightarrow> (Some err, e, w)
                              | Inr lsize \<Rightarrow>
                                  if int lsize \<noteq> rsize
                                  then really_download extract_info True e w
                                  else (None, e\<lparr>filename := Some lfile\<rparr>, w))
                           else (Some IndexError, e, w)))
               else really_download extract_info True e w
           | _ \<Rightarrow> (Some ValueError, e, w)))"

definition download_stable ::
  "downloader \<Rightarrow> url_entry \<Rightarrow> world \<Rightarrow> string \<Rightarrow> exn option \<times> url_entry \<times> world" where
  \<comment> \<open>The \<^verbatim>\<open>else\<close> branch: every other extractor.\<close>
  "download_stable extract_info e w expected =
     (case os_listdir (files w) (download_folder e) of
        Inl err \<Rightarrow> (Some err, e, w)
      | Inr ldir \<Rightarrow>
          (let flistdir = map (rsplit1_first CHR ''.'') ldir;
               expected_fname_base = os_path_basename expected;
               expected_fname_noex = rsplit1_first CHR ''.'' expected_fname_base
           in if expected_fname_base \<in> set ldir then
                (None,
                 e\<lparr>filename := Some (os_path_join (download_folder e) expected_fname_base)\<rparr>,
                 w\<lparr>printed := printed w @ [Print_cached]\<rparr>)
              else if expected_fname_noex \<in> set flistdir then
                (case index_of expected_fname_noex flistdir of
                   None \<Rightarrow>
                     (Some ValueError, e,
                      w\<lparr>printed := printed w @ [Print_cached_different_extension]\<rparr>)
                 | Some i \<Rightarrow>
                     if i < length ldir then
                       (let fname = os_path_join (download_folder e) (ldir ! i) in
                        (None, e\<lparr>filename := Some fname\<rparr>,
                         w\<lparr>printed := printed w @
                              [Print_cached_different_extension,
                               Print_expected_got (last (rsplit1 CHR ''.'' expected))
                                 (last (rsplit1 CHR ''.'' fname))]\<rparr>))
                     else
                       (Some IndexError, e,
                        w\<lparr>printed := printed w @ [Print_cached_different_extension]\<rparr>))
              else really_download extract_info False e w))"

definition download_try ::
  "downloader \<Rightarrow> probe \<Rightarrow> url_entry \<Rightarrow> world \<Rightarrow> exn option \<times> url_entry \<times> world" where
  \<comment> \<open>The \<^verbatim>\<open>try\<close> block up to the ready callbacks. \<^verbatim>\<open>os.path.basename(None)\<close> raises
      TypeError.\<close>
  "download_try extract_info pr e w =
     (case (if os_path_exists (files w) (download_folder e) then Inr (files w)
            else os_makedirs (files w) (download_folder e)) of
        Inl err \<Rightarrow> (Some err, e, w)
      | Inr fs1 \<Rightarrow>
          (let w1 = w\<lparr>files := fs1\<rparr> in
           case expected_filename e of
             None \<Rightarrow> (Some TypeError, e, w1)
           | Some expected \<Rightarrow>
               if split_first CHR ''-'' (os_path_basename expected) = ''generic''
               then download_generic extract_info pr e w1 expected
               else download_stable extract_info e w1 expected))"

definition download_finish ::
  "exn option \<Rightarrow> 'a base_entry_scheme \<Rightarrow> world \<Rightarrow> 'a base_entry_scheme \<times> world" where
  \<comment> \<open>The ready callbacks, the \<^verbatim>\<open>except Exception\<close> clause and the \<^verbatim>\<open>finally\<close> clause.
      \<^verbatim>\<open>_for_each_future\<close> absorbs every exception, so it never raises itself. An
      exception that is not an \<^verbatim>\<open>Exception\<close> passes the \<^verbatim>\<open>except\<close> clause: only the
      \<^verbatim>\<open>finally\<close> clause runs, and the exception leaves the coroutine.\<close>
  "download_finish r e w =
     (let (e1, w1) =
            (case r of
               None \<Rightarrow> for_each_future set_result e w
             | Some err \<Rightarrow>
                 if is_Exception err
                 then for_each_future (set_exception err) e
                        (w\<lparr>printed := printed w @ [Print_traceback err]\<rparr>)
                 else (e, w))
      in (e1\<lparr>is_downloading := False\<rparr>, w1))"

definition url_download :: "downloader \<Rightarrow> probe \<Rightarrow> url_entry \<Rightarrow> world \<Rightarrow> url_entry \<times> world" where
  \<comment> \<open>One run of the coroutine \<^verbatim>\<open>URLPlaylistEntry._download\<close> from start to end.\<close>
  "url_download extract_info pr e w =
     (if is_downloading e then (e, w)
      else
        (let (r, e1, w1) = download_try extract_info pr (e\<lparr>is_downloading := True\<rparr>) w
         in download_finish r e1 w1))"

subsection \<open>A URL entry on the event loop\<close>

text \<open>
  The coroutine gives up control only at its \<^verbatim>\<open>await\<close>s, which lie inside the
  \<^verbatim>\<open>try\<close> block. Between its start (the flag test and the flag set) and its end other
  callbacks of the loop can run: readiness requests, cancellations by the owners of
  handles, and the start of further scheduled coroutines. \<open>running\<close> counts the
  coroutines that are past the flag test and have not finished.
\<close>

datatype event =
    Get_ready_future
  | Cancel nat
  | Start_download
  | Finish_download downloader probe

record url_sys =
  ent :: url_entry
  wld :: world
  running :: nat

definition url_step :: "url_sys \<Rightarrow> event \<Rightarrow> url_sys" where
  "url_step s ev =
     (case ev of
        Get_ready_future \<Rightarrow>
          (let (f, e1, w1) = get_ready_future (ent s) (wld s) in s\<lparr>ent := e1, wld := w1\<rparr>)
      | Cancel f \<Rightarrow> s\<lparr>wld := cancel f (wld s)\<rparr>
      | Start_download \<Rightarrow>
          if scheduled (wld s) = 0 then s
          else
            (let s1 = s\<lparr>wld := (wld s)\<lparr>scheduled := scheduled (wld s) - 1\<rparr>\<rparr> in
             if is_downloading (ent s1) then s1
             else s1\<lparr>ent := (ent s1)\<lparr>is_downloading := True\<rparr>, running := Suc (running s1)\<rparr>)
      | Finish_download extract_info pr \<Rightarrow>
          if running s = 0 then s
          else
            (let (r, e1, w1) = download_try extract_info pr (ent s) (wld s);
                 (e2, w2) = download_finish r e1 w1
             in s\<lparr>ent := e2, wld := w2, running := running s - 1\<rparr>))"

definition url_run :: "url_sys \<Rightarrow> event list \<Rightarrow> url_sys" where
  "url_run s evs = foldl url_step s evs"

definition world0 :: "fs \<Rightarrow> world" where
  "world0 fs0 =
     \<lparr>files = fs0, futures = (\<lambda>_. Pending), next_future = 0, scheduled = 0,
      executor_jobs = 0, called = [], printed = []\<rparr>"

definition url_init :: "url_entry \<Rightarrow> fs \<Rightarrow> url_sys" where
  \<comment> \<open>An entry as its constructor leaves it, on a loop with nothing scheduled.\<close>
  "url_init e fs0 =
     \<lparr>ent = e\<lparr>filename := None, is_downloading := False, waiting_futures := []\<rparr>,
      wld = world0 fs0, running = 0\<rparr>"

section \<open>OsuPlaylistEntry\<close>

record osu_entry = base_entry +
  osu_id :: string
  osu_url :: string
  osu_duration :: int

text \<open>
  \<^verbatim>\<open>OsuPlaylistEntry._download\<close> has no \<^verbatim>\<open>await\<close>: it hands \<^verbatim>\<open>_really_download\<close> to the
  thread pool and returns. \<^verbatim>\<open>run_in_executor\<close> raises when the pool refuses the job
  (\<open>accepts = False\<close>); the exception leaves the coroutine before the flag is reset.
\<close>

definition osu_download :: "bool \<Rightarrow> osu_entry \<Rightarrow> world \<Rightarrow> exn option \<times> osu_entry \<times> world" where
  "osu_download accepts e w =
     (if is_downloading e then (None, e, w)
      else
        (let e1 = e\<lparr>is_downloading := True\<rparr> in
         if accepts
         then (None, e1\<lparr>is_downloading := False\<rparr>, w\<lparr>executor_jobs := Suc (executor_jobs w)\<rparr>)
         else (Some RuntimeError, e1, w)))"

text \<open>
  The job itself logs in, fetches and unpacks the archive and reads the name of the
  audio file from the first \<^verbatim>\<open>.osu\<close> file that has one; all of that is outside this
  model and is given by its outcome.
\<close>

datatype osu_job = Job_raises | Job_no_audio | Job_audio string

definition osu_really_download :: "osu_job \<Rightarrow> osu_entry \<Rightarrow> world \<Rightarrow> exn option \<times> osu_entry \<times> world" where
  "osu_really_download job e w =
     (let w1 = w\<lparr>printed := printed w @ [Print_started]\<rparr> in
      case job of
        Job_raises \<Rightarrow> (Some ExtractionError, e, w1)
      | Job_no_audio \<Rightarrow> (None, e, w1\<lparr>printed := printed w1 @ [Print_complete]\<rparr>)
      | Job_audio f \<Rightarrow>
          (None, e\<lparr>filename := Some f\<rparr>, w1\<lparr>printed := printed w1 @ [Print_complete]\<rparr>))"

datatype osu_event =
    Osu_get_ready_future
  | Osu_cancel nat
  | Osu_start_download bool
  | Osu_job_done osu_job

record osu_sys =
  oent :: osu_entry
  owld :: world

definition osu_step :: "osu_sys \<Rightarrow> osu_event \<Rightarrow> osu_sys" where
  "osu_step s ev =
     (case ev of
        Osu_get_ready_future \<Rightarrow>
          (let (f, e1, w1) = get_ready_future (oent s) (owld s) in s\<lparr>oent := e1, owld := w1\<rparr>)
      | Osu_cancel f \<Rightarrow> s\<lparr>owld := cancel f (owld s)\<rparr>
      | Osu_start_download accepts \<Rightarrow>
          if scheduled (owld s) = 0 then s
          else
            (let w0 = (owld s)\<lparr>scheduled := scheduled (owld s) - 1\<rparr>;
                 (r, e1, w1) = osu_download accepts (oent s) w0
             in s\<lparr>oent := e1, owld := w1\<rparr>)
      | Osu_job_done job \<Rightarrow>
          if executor_jobs (owld s) = 0 then s
          else
            (let w0 = (owld s)\<lparr>executor_jobs := executor_jobs (owld s) - 1\<rparr>;
                 (r, e1, w1) = osu_really_download job (oent s) w0
             in s\<lparr>oent := e1, owld := w1\<rparr>))"

definition osu_run :: "osu_sys \<Rightarrow> osu_event list \<Rightarrow> osu_sys" where
  "osu_run s evs = foldl osu_step s evs"

definition OsuPlaylistEntry :: "string \<Rightarrow> osu_entry" where
  "OsuPlaylistEntry i =
     \<lparr>filename = None, is_downloading = False, waiting_futures = [],
      osu_id = i, osu_url = ''https://osu.ppy.sh/s/'' @ i, osu_duration = 0\<rparr>"

definition osu_init :: "string \<Rightarrow> fs \<Rightarrow> osu_sys" where
  "osu_init i fs0 = \<lparr>oent = OsuPlaylistEntry i, owld = world0 fs0\<rparr>"

section \<open>Concrete inputs\<close>

definition ytdl_writes :: "string \<Rightarrow> node \<Rightarrow> downloader" where
  \<comment> \<open>An extractor that succeeds and leaves the downloaded file under the name it reports.\<close>
  "ytdl_writes name n =
     (\<lambda>u fs. (Extract_result name, filter (\<lambda>(q, _). q \<noteq> name) fs @ [(name, n)]))"

definition generic_ytdl :: downloader where
  "generic_ytdl = ytdl_writes ''audio_cache/generic-song.mp3'' (File 1000 ''0a1b2c3d'')"

definition generic_entry :: url_entry where
  "generic_entry =
     URLPlaylistEntry ''audio_cache'' ''http://example.org/song.mp3'' ''song'' 0
       (Some ''audio_cache/generic-song.mp3'') []"

definition youtube_entry :: url_entry where
  "youtube_entry =
     URLPlaylistEntry ''audio_cache'' ''http://example.org/watch'' ''foo'' 215
       (Some ''audio_cache/youtube-9R8a-foo.mp3'') []"

definition youtube_ytdl :: downloader where
  "youtube_ytdl = ytdl_writes ''audio_cache/youtube-9R8a-foo.mp3'' (File 1000 ''0a1b2c3d'')"

definition downloaded_entry :: url_entry where
  "downloaded_entry = youtube_entry\<lparr>filename := Some ''audio_cache/youtube-9R8a-foo.m4a''\<rparr>"

definition no_channel :: "string \<Rightarrow> meta_obj option" where
  "no_channel i = None"

definition no_member :: "meta_obj \<Rightarrow> string \<Rightarrow> meta_obj option" where
  "no_member ch i = None"

definition downloaded_record :: persisted where
  "downloaded_record =
     \<lparr>p_version = 1, p_type = ''URLPlaylistEntry'', p_url = ''http://example.org/watch'',
      p_title = ''foo'', p_duration = 215, p_downloaded = True,
      p_filename = Some ''audio_cache/youtube-9R8a-foo.m4a'', p_meta = []\<rparr>"

definition restored_entry :: url_entry where
  "restored_entry =
     URLPlaylistEntry ''audio_cache'' ''http://example.org/watch'' ''foo'' 215
       (Some ''audio_cache/youtube-9R8a-foo.m4a'') []"

definition generic_cached_world :: world where
  \<comment> \<open>Two earlier downloads share the stem \<open>generic-song\<close>.\<close>
  "generic_cached_world =
     world0 [(''audio_cache'', Dir 0),
             (''audio_cache/generic-song-0a1b2c3d.mp3'', File 1000 ''0a1b2c3d''),
             (''audio_cache/generic-song-77e0f1aa.mp3'', File 1200 ''77e0f1aa'')]"

definition drift_world :: world where
  \<comment> \<open>The expected \<open>youtube-9R8a-foo.mp3\<close> is absent; two files have its stem.\<close>
  "drift_world =
     world0 [(''audio_cache'', Dir 0),
             (''audio_cache/youtube-9R8a-foo.webm'', File 900 ''5d41402a''),
             (''audio_cache/youtube-9R8a-foo.m4a'', File 1000 ''0a1b2c3d'')]"

definition exact_world :: world where
  "exact_world =
     world0 [(''audio_cache'', Dir 0),
             (''audio_cache/youtube-9R8a-foo.m4a'', File 1000 ''0a1b2c3d''),
             (''audio_cache/youtube-9R8a-foo.mp3'', File 1100 ''9e107d9d'')]"

definition empty_cache_world :: world where
  "empty_cache_world = world0 [(''audio_cache'', Dir 0)]"

section \<open>Predicates used in the statements\<close>

definition is_done :: "fstate \<Rightarrow> bool" where
  \<comment> \<open>The future holds a result or an exception.\<close>
  "is_done st = (case st of Result_set \<Rightarrow> True | Exception_set _ \<Rightarrow> True | _ \<Rightarrow> False)"

definition url_inv :: "url_sys \<Rightarrow> bool" where
  \<comment> \<open>What holds of a URL entry on the loop after any sequence of events.\<close>
  "url_inv s =
     (distinct (waiting_futures (ent s) @ called (wld s))
      \<and> (\<forall>h \<in> set (waiting_futures (ent s)) \<union> set (called (wld s)). h < next_future (wld s))
      \<and> (\<forall>h < next_future (wld s).
            h \<in> set (waiting_futures (ent s)) \<or> h \<in> set (called (wld s))
            \<or> futures (wld s) h = Cancelled)
      \<and> (\<forall>h \<in> set (called (wld s)). is_done (futures (wld s) h))
      \<and> (\<forall>h \<in> set (waiting_futures (ent s)).
            futures (wld s) h = Pending \<or> futures (wld s) h = Cancelled)
      \<and> running s \<le> 1
      \<and> (is_downloading (ent s) \<longleftrightarrow> running s = 1))"

definition pass_entry :: url_entry where
  \<comment> \<open>Four waiting handles: the first is already done, the second cancelled.\<close>
  "pass_entry = youtube_entry\<lparr>is_downloading := True, waiting_futures := [0, 1, 2, 3]\<rparr>"

definition pass_world :: world where
  "pass_world =
     (world0 [])\<lparr>futures := (\<lambda>h. if h = 0 then Result_set else if h = 1 then Cancelled else Pending),
                next_future := 4\<rparr>"

fun raised_errors ::
  "(nat \<Rightarrow> (nat \<Rightarrow> fstate) \<Rightarrow> exn + (nat \<Rightarrow> fstate)) \<Rightarrow> nat list \<Rightarrow> (nat \<Rightarrow> fstate) \<Rightarrow> exn list" where
  \<comment> \<open>The exceptions that the callback raises when it is tried, in order, on each
      handle of the list that is not cancelled when its turn comes.\<close>
  "raised_errors cb [] st = []"
| "raised_errors cb (h # hs) st =
     (if st h = Cancelled then raised_errors cb hs st
      else (case cb h st of
              Inl err \<Rightarrow> err # raised_errors cb hs st
            | Inr st' \<Rightarrow> raised_errors cb hs st'))"

definition keyerror_callback :: "nat \<Rightarrow> (nat \<Rightarrow> fstate) \<Rightarrow> exn + (nat \<Rightarrow> fstate)" where
  \<comment> \<open>A callback that fails with its own exception on handle 2 and is
      \<^verbatim>\<open>future.set_result(self)\<close> on the others.\<close>
  "keyerror_callback h st = (if h = 2 then Inl KeyError else set_result h st)"

section \<open>The hashed real download\<close>

text \<open>
  C1. With hashing requested and no file at the hashed name, the downloaded file is
  meant to be renamed to the hashed name. The \<^verbatim>\<open>os.rename\<close> call stands inside the
  branch for an existing hashed file, after \<^verbatim>\<open>os.unlink\<close>, so here nothing is renamed:
  the call returns normally, the entry's filename is the hashed name, the download is
  still under its unhashed name and nothing exists at the hashed one.
\<close>

theorem really_download_hash_leaves_unhashed_file:
  "really_download generic_ytdl True generic_entry (world0 [(''audio_cache'', Dir 0)]) =
     (None,
      generic_entry\<lparr>filename := Some ''audio_cache/generic-song-0a1b2c3d.mp3''\<rparr>,
      (world0 [(''audio_cache'', Dir 0),
               (''audio_cache/generic-song.mp3'', File 1000 ''0a1b2c3d'')])
        \<lparr>printed := [Print_started, Print_complete]\<rparr>)
   \<and> os_path_isfile
        [(''audio_cache'', Dir 0), (''audio_cache/generic-song.mp3'', File 1000 ''0a1b2c3d'')]
        ''audio_cache/generic-song.mp3''
   \<and> \<not> os_path_exists
        [(''audio_cache'', Dir 0), (''audio_cache/generic-song.mp3'', File 1000 ''0a1b2c3d'')]
        ''audio_cache/generic-song-0a1b2c3d.mp3''"
  by (simp add: really_download_def generic_ytdl_def ytdl_writes_def generic_entry_def
      URLPlaylistEntry_def world0_def md5sum_def hashed_name_def rsplit1_def os_path_isfile_def
      os_path_exists_def)

text \<open>
  C2. A first download of a generic-extractor entry into an empty cache: one caller
  asks for readiness, the coroutine starts and finishes. The caller's handle is
  resolved with the entry and the entry reports itself downloaded, while no file
  exists at the entry's filename.
\<close>

theorem url_download_success_with_missing_file:
  "(let s = url_run (url_init generic_entry [])
              [Get_ready_future, Start_download, Finish_download generic_ytdl Probe_fails]
    in filename (ent s) = Some ''audio_cache/generic-song-0a1b2c3d.mp3''
       \<and> \<not> os_path_exists (files (wld s)) ''audio_cache/generic-song-0a1b2c3d.mp3''
       \<and> futures (wld s) 0 = Result_set
       \<and> is_downloaded (ent s)
       \<and> running s = 0)"
  by code_simp

section \<open>Osu entries on the event loop\<close>

text \<open>
  C4. Two readiness requests on a fresh Osu entry schedule two \<^verbatim>\<open>_download\<close>
  coroutines. Each finds the flag clear, because the first one reset it right after
  handing its job to the thread pool: two download jobs are in flight at once. And
  when the pool refuses the job, the flag stays set.
\<close>

theorem osu_download_runs_twice:
  "executor_jobs (owld (osu_run (osu_init ''39804'' [])
      [Osu_get_ready_future, Osu_get_ready_future,
       Osu_start_download True, Osu_start_download True])) = 2
   \<and> is_downloading (oent (osu_run (osu_init ''39804'' [])
      [Osu_get_ready_future, Osu_start_download False]))"
  by code_simp

section \<open>Readiness requests\<close>

text \<open>
  C9. \<^verbatim>\<open>is_downloaded\<close> holds exactly when the entry is not downloading and its filename
  is set (\<^verbatim>\<open>bool(self.filename)\<close>: not \<^verbatim>\<open>None\<close> and not empty), whatever filename a
  downloading entry has. \<^verbatim>\<open>get_ready_future\<close> resolves the new handle with the entry at
  once exactly when \<^verbatim>\<open>is_downloaded\<close> holds, and then changes nothing else; otherwise
  the handle stays pending, is appended to the waiting list, and one more download
  coroutine is scheduled. (\<^verbatim>\<open>URLPlaylistEntry\<close> and \<^verbatim>\<open>OsuPlaylistEntry\<close> inherit both
  unchanged; \<^verbatim>\<open>LocalOsuPlaylistEntry\<close> replaces the property by a method and is not
  covered.)
\<close>

theorem get_ready_future_resolves_iff_downloaded:
  "is_downloaded e = (\<not> is_downloading e \<and> (\<exists>s. filename e = Some s \<and> s \<noteq> []))
   \<and> (case get_ready_future e w of
        (future, e', w') \<Rightarrow>
          future = next_future w
          \<and> (futures w' future = Result_set) = is_downloaded e
          \<and> (is_downloaded e \<longrightarrow>
                e' = e \<and> scheduled w' = scheduled w \<and> called w' = called w @ [future])
          \<and> (\<not> is_downloaded e \<longrightarrow>
                futures w' future = Pending
                \<and> e' = e\<lparr>waiting_futures := waiting_futures e @ [future]\<rparr>
                \<and> scheduled w' = Suc (scheduled w) \<and> called w' = called w))"
  by (auto simp: is_downloaded_def get_ready_future_def Let_def split: option.splits)

theorem get_ready_future_resolves_iff_downloaded_witness:
  "is_downloaded downloaded_entry
   \<and> futures (snd (snd (get_ready_future downloaded_entry (world0 [])))) 0 = Result_set
   \<and> \<not> is_downloaded youtube_entry
   \<and> futures (snd (snd (get_ready_future youtube_entry (world0 [])))) 0 = Pending
   \<and> waiting_futures (fst (snd (get_ready_future youtube_entry (world0 [])))) = [0]
   \<and> scheduled (snd (snd (get_ready_future youtube_entry (world0 [])))) = 1"
  using get_ready_future_resolves_iff_downloaded [of downloaded_entry "world0 []"]
    get_ready_future_resolves_iff_downloaded [of youtube_entry "world0 []"]
  by (simp add: downloaded_entry_def youtube_entry_def URLPlaylistEntry_def world0_def
      is_downloaded_def get_ready_future_def Let_def)

section \<open>Serialisation round trip\<close>

text \<open>
  C5. \<^verbatim>\<open>from_json\<close> reads \<^verbatim>\<open>downloaded\<close> and \<^verbatim>\<open>filename\<close> from the record and then
  hands the filename to the constructor in the place of \<^verbatim>\<open>expected_filename\<close>; the
  constructor starts every entry with no filename. A downloaded entry is serialised
  as downloaded, with its filename, and comes back not downloaded and without
  filename.
\<close>

theorem from_json_loses_filename:
  "is_downloaded downloaded_entry
   \<and> to_json downloaded_entry = Inr downloaded_record
   \<and> from_json ''audio_cache'' no_channel no_member downloaded_record = Inr restored_entry
   \<and> filename restored_entry \<noteq> filename downloaded_entry
   \<and> is_downloaded restored_entry \<noteq> is_downloaded downloaded_entry"
  by (simp add: downloaded_entry_def youtube_entry_def URLPlaylistEntry_def is_downloaded_def
      to_json_def downloaded_record_def from_json_def restored_entry_def)

text \<open>
  What the round trip keeps, for every record that \<^verbatim>\<open>to_json\<close> produces and
  \<^verbatim>\<open>from_json\<close> accepts: url, title and duration. The filename of a downloaded
  original is found in the new entry's \<^verbatim>\<open>expected_filename\<close>.
\<close>

lemma from_json_to_json:
  assumes "to_json e = Inr d"
    and "from_json folder get_channel get_member d = Inr e'"
  shows "url e' = url e \<and> title e' = title e \<and> duration e' = duration e
         \<and> expected_filename e' = (if is_downloaded e then filename e else None)
         \<and> filename e' = None \<and> \<not> is_downloaded e'"
  using assms
  by (auto simp: to_json_def from_json_def URLPlaylistEntry_def is_downloaded_def Let_def
      split: sum.splits option.splits meta_value.splits if_splits)

lemma from_json_to_json_example:
  "to_json downloaded_entry = Inr downloaded_record
   \<and> from_json ''audio_cache'' no_channel no_member downloaded_record = Inr restored_entry
   \<and> url restored_entry = url downloaded_entry
   \<and> title restored_entry = title downloaded_entry
   \<and> duration restored_entry = duration downloaded_entry
   \<and> expected_filename restored_entry = filename downloaded_entry
   \<and> filename restored_entry = None"
proof -
  have a: "to_json downloaded_entry = Inr downloaded_record"
    by (simp add: downloaded_entry_def youtube_entry_def URLPlaylistEntry_def is_downloaded_def
        to_json_def downloaded_record_def)
  have b: "from_json ''audio_cache'' no_channel no_member downloaded_record = Inr restored_entry"
    by (simp add: downloaded_record_def from_json_def restored_entry_def)
  have c: "is_downloaded downloaded_entry"
    by (simp add: downloaded_entry_def youtube_entry_def URLPlaylistEntry_def is_downloaded_def)
  show ?thesis using from_json_to_json [OF a b] a b c by simp
qed

section \<open>Directory listings and first positions\<close>

text \<open>
  \<^verbatim>\<open>list.index\<close> gives the first position, and every name that \<^verbatim>\<open>os.listdir\<close> returns
  for a folder exists under that folder.
\<close>

lemma index_of_SomeD:
  "index_of x xs = Some i \<Longrightarrow> i < length xs \<and> xs ! i = x \<and> (\<forall>j<i. xs ! j \<noteq> x)"
proof (induction xs arbitrary: i)
  case Nil
  then show ?case by simp
next
  case (Cons y ys)
  show ?case
  proof (cases "x = y")
    case True
    with Cons.prems show ?thesis by simp
  next
    case False
    with Cons.prems obtain k where k: "index_of x ys = Some k" "i = Suc k"
      by (auto split: option.splits)
    from Cons.IH [OF k(1)] False k(2) show ?thesis
      by (auto simp: nth_Cons split: nat.splits)
  qed
qed

lemma index_of_mem: "x \<in> set xs \<Longrightarrow> \<exists>i. index_of x xs = Some i"
  by (induction xs) auto

lemma child_name_join:
  assumes "child_name d p = Some n" and "d \<noteq> []"
  shows "os_path_join d n = p"
proof -
  from assms(1) have p: "take (length (dir_prefix d)) p = dir_prefix d"
    and n: "n = drop (length (dir_prefix d)) p" "n \<noteq> []" "CHR ''/'' \<notin> set n"
    by (auto simp: child_name_def Let_def split: if_splits)
  have "p = dir_prefix d @ n"
    using p n(1) by (metis append_take_drop_id)
  moreover have "hd n \<noteq> CHR ''/''"
    using n(2,3) by (cases n) auto
  ultimately show ?thesis
    using assms(2) n(2) by (auto simp: os_path_join_def dir_prefix_def)
qed

lemma os_listdir_exists:
  assumes "os_listdir fs d = Inr names" and "n \<in> set names"
  shows "os_path_exists fs (os_path_join d n)"
proof -
  from assms(1) have d: "d \<noteq> []"
    and names: "names = List.map_filter (\<lambda>(p, _). child_name d p) fs"
    by (auto simp: os_listdir_def split: option.splits node.splits if_splits)
  from assms(2) names obtain p nd where pn: "(p, nd) \<in> set fs" "child_name d p = Some n"
    by (auto simp: map_filter_def)
  from child_name_join [OF pn(2) d] have "os_path_join d n = p" .
  moreover from pn(1) have "map_of fs p \<noteq> None"
    by (metis map_of_eq_None_iff fst_conv image_eqI)
  ultimately show ?thesis by (simp add: os_path_exists_def)
qed

lemma os_listdir_folder_exists: "os_listdir fs d = Inr names \<Longrightarrow> os_path_exists fs d"
  by (auto simp: os_listdir_def os_path_exists_def split: option.splits node.splits)

lemma os_path_exists_getsize: "os_path_exists fs p \<Longrightarrow> \<exists>k. os_path_getsize fs p = Inr k"
  by (auto simp: os_path_exists_def os_path_getsize_def split: option.splits node.splits)

section \<open>Cache resolution\<close>

text \<open>
  When the download folder can be listed, the \<^verbatim>\<open>try\<close> block is the branch chosen by
  the extractor name; each branch that looks a stem up takes the first position at
  which the stem occurs.
\<close>

lemma download_try_stable:
  assumes "expected_filename e = Some expected"
    and "split_first CHR ''-'' (os_path_basename expected) \<noteq> ''generic''"
    and "os_listdir (files w) (download_folder e) = Inr ldir"
  shows "download_try extract_info pr e w = download_stable extract_info e w expected"
  using assms os_listdir_folder_exists [OF assms(3)]
  by (simp add: download_try_def)

lemma download_try_generic:
  assumes "expected_filename e = Some expected"
    and "split_first CHR ''-'' (os_path_basename expected) = ''generic''"
    and "os_listdir (files w) (download_folder e) = Inr names"
  shows "download_try extract_info pr e w = download_generic extract_info pr e w expected"
  using assms os_listdir_folder_exists [OF assms(3)]
  by (simp add: download_try_def)

lemma download_generic_candidate:
  assumes "os_listdir (files w) (download_folder e) = Inr names"
    and "rsplit1 CHR ''.'' (os_path_basename expected) = [noex, ex]"
    and "noex \<in> set (map (rsplit1_first CHR ''-'') names)"
  shows "\<exists>i lsize. i < length names
           \<and> rsplit1_first CHR ''-'' (names ! i) = noex
           \<and> (\<forall>j<i. rsplit1_first CHR ''-'' (names ! j) \<noteq> noex)
           \<and> os_path_getsize (files w) (os_path_join (download_folder e) (names ! i)) = Inr lsize
           \<and> (\<forall>extract_info pr. download_generic extract_info pr e w expected =
               (if int lsize = (case pr of Probe_fails \<Rightarrow> 0 | Probe_int r \<Rightarrow> r)
                then (None, e\<lparr>filename := Some (os_path_join (download_folder e) (names ! i))\<rparr>, w)
                else really_download extract_info True e w))"
proof -
  from index_of_mem [OF assms(3)] obtain i
    where i: "index_of noex (map (rsplit1_first CHR ''-'') names) = Some i" by blast
  from index_of_SomeD [OF i] have il: "i < length names"
    and im: "rsplit1_first CHR ''-'' (names ! i) = noex"
    and first: "\<forall>j<i. rsplit1_first CHR ''-'' (names ! j) \<noteq> noex"
    by auto
  from il have "names ! i \<in> set names" by simp
  from os_path_exists_getsize [OF os_listdir_exists [OF assms(1) this]] obtain lsize
    where sz: "os_path_getsize (files w) (os_path_join (download_folder e) (names ! i)) = Inr lsize"
    by blast
  have "\<forall>extract_info pr. download_generic extract_info pr e w expected =
               (if int lsize = (case pr of Probe_fails \<Rightarrow> 0 | Probe_int r \<Rightarrow> r)
                then (None, e\<lparr>filename := Some (os_path_join (download_folder e) (names ! i))\<rparr>, w)
                else really_download extract_info True e w)"
    using assms i il sz by (simp add: download_generic_def Let_def)
  with il im first sz show ?thesis by blast
qed

lemma download_stable_drift:
  assumes "os_listdir (files w) (download_folder e) = Inr ldir"
    and "os_path_basename expected \<notin> set ldir"
    and "rsplit1_first CHR ''.'' (os_path_basename expected) \<in> set (map (rsplit1_first CHR ''.'') ldir)"
  shows "\<exists>i. i < length ldir
           \<and> rsplit1_first CHR ''.'' (ldir ! i) = rsplit1_first CHR ''.'' (os_path_basename expected)
           \<and> (\<forall>j<i. rsplit1_first CHR ''.'' (ldir ! j) \<noteq> rsplit1_first CHR ''.'' (os_path_basename expected))
           \<and> download_stable extract_info e w expected =
               (None, e\<lparr>filename := Some (os_path_join (download_folder e) (ldir ! i))\<rparr>,
                w\<lparr>printed := printed w @
                    [Print_cached_different_extension,
                     Print_expected_got (last (rsplit1 CHR ''.'' expected))
                       (last (rsplit1 CHR ''.'' (os_path_join (download_folder e) (ldir ! i))))]\<rparr>)"
proof -
  let ?noex = "rsplit1_first CHR ''.'' (os_path_basename expected)"
  from index_of_mem [OF assms(3)] obtain i
    where i: "index_of ?noex (map (rsplit1_first CHR ''.'') ldir) = Some i" by blast
  from index_of_SomeD [OF i] have il: "i < length ldir"
    and im: "rsplit1_first CHR ''.'' (ldir ! i) = ?noex"
    and first: "\<forall>j<i. rsplit1_first CHR ''.'' (ldir ! j) \<noteq> ?noex"
    by auto
  have "download_stable extract_info e w expected =
               (None, e\<lparr>filename := Some (os_path_join (download_folder e) (ldir ! i))\<rparr>,
                w\<lparr>printed := printed w @
                    [Print_cached_different_extension,
                     Print_expected_got (last (rsplit1 CHR ''.'' expected))
                       (last (rsplit1 CHR ''.'' (os_path_join (download_folder e) (ldir ! i))))]\<rparr>)"
    using assms i il by (simp add: download_stable_def Let_def)
  with il im first show ?thesis by blast
qed

text \<open>
  C7. Generic extractor, folder listed, the expected name has an extension, and its
  stem is the stem of some listed name. Then there is a listed candidate with that
  stem whose size can be read, and the outcome is decided by that size alone: with a
  content length \<open>r\<close> the candidate is reused (nothing else changes, nothing is raised)
  when its size is \<open>r\<close>, and the real download with hashing runs otherwise; a failed
  probe counts as \<open>r = 0\<close>, so with a non-empty candidate the real download with hashing
  runs.
\<close>

theorem generic_cache_size_check:
  assumes "expected_filename e = Some expected"
    and "split_first CHR ''-'' (os_path_basename expected) = ''generic''"
    and "os_listdir (files w) (download_folder e) = Inr names"
    and "rsplit1 CHR ''.'' (os_path_basename expected) = [noex, ex]"
    and "noex \<in> set (map (rsplit1_first CHR ''-'') names)"
  shows "\<exists>n lsize. n \<in> set names \<and> rsplit1_first CHR ''-'' n = noex
           \<and> os_path_getsize (files w) (os_path_join (download_folder e) n) = Inr lsize
           \<and> (\<forall>extract_info r. download_try extract_info (Probe_int r) e w =
                 (if int lsize = r
                  then (None, e\<lparr>filename := Some (os_path_join (download_folder e) n)\<rparr>, w)
                  else really_download extract_info True e w))
           \<and> (\<forall>extract_info. download_try extract_info Probe_fails e w =
                 (if lsize = 0
                  then (None, e\<lparr>filename := Some (os_path_join (download_folder e) n)\<rparr>, w)
                  else really_download extract_info True e w))"
proof -
  from download_generic_candidate [OF assms(3,4,5)] obtain i lsize
    where il: "i < length names"
      and im: "rsplit1_first CHR ''-'' (names ! i) = noex"
      and sz: "os_path_getsize (files w) (os_path_join (download_folder e) (names ! i)) = Inr lsize"
      and dg: "\<forall>extract_info pr. download_generic extract_info pr e w expected =
               (if int lsize = (case pr of Probe_fails \<Rightarrow> 0 | Probe_int r \<Rightarrow> r)
                then (None, e\<lparr>filename := Some (os_path_join (download_folder e) (names ! i))\<rparr>, w)
                else really_download extract_info True e w)"
    by blast
  have mem: "names ! i \<in> set names" using il by simp
  have a: "\<forall>extract_info r. download_try extract_info (Probe_int r) e w =
                 (if int lsize = r
                  then (None, e\<lparr>filename := Some (os_path_join (download_folder e) (names ! i))\<rparr>, w)
                  else really_download extract_info True e w)"
    using dg by (simp add: download_try_generic [OF assms(1,2,3)])
  have b: "\<forall>extract_info. download_try extract_info Probe_fails e w =
                 (if lsize = 0
                  then (None, e\<lparr>filename := Some (os_path_join (download_folder e) (names ! i))\<rparr>, w)
                  else really_download extract_info True e w)"
    using dg by (simp add: download_try_generic [OF assms(1,2,3)])
  from mem im sz a b show ?thesis by blast
qed

theorem generic_cache_size_check_witness:
  "expected_filename generic_entry = Some ''audio_cache/generic-song.mp3''
   \<and> split_first CHR ''-'' (os_path_basename ''audio_cache/generic-song.mp3'') = ''generic''
   \<and> os_listdir (files generic_cached_world) (download_folder generic_entry) =
        Inr [''generic-song-0a1b2c3d.mp3'', ''generic-song-77e0f1aa.mp3'']
   \<and> rsplit1 CHR ''.'' (os_path_basename ''audio_cache/generic-song.mp3'') = [''generic-song'', ''mp3'']
   \<and> ''generic-song'' \<in> set (map (rsplit1_first CHR ''-'')
        [''generic-song-0a1b2c3d.mp3'', ''generic-song-77e0f1aa.mp3''])
   \<and> filename (fst (snd (download_try generic_ytdl (Probe_int 1000) generic_entry
        generic_cached_world))) = Some ''audio_cache/generic-song-0a1b2c3d.mp3''
   \<and> printed (snd (snd (download_try generic_ytdl (Probe_int 1000) generic_entry
        generic_cached_world))) = []
   \<and> download_try generic_ytdl Probe_fails generic_entry generic_cached_world =
        really_download generic_ytdl True generic_entry generic_cached_world"
proof -
  have h1: "expected_filename generic_entry = Some ''audio_cache/generic-song.mp3''"
    by (simp add: generic_entry_def URLPlaylistEntry_def)
  have h2: "split_first CHR ''-'' (os_path_basename ''audio_cache/generic-song.mp3'') = ''generic''"
    by code_simp
  have h3: "os_listdir (files generic_cached_world) (download_folder generic_entry) =
        Inr [''generic-song-0a1b2c3d.mp3'', ''generic-song-77e0f1aa.mp3'']"
    by code_simp
  have h4: "rsplit1 CHR ''.'' (os_path_basename ''audio_cache/generic-song.mp3'') = [''generic-song'', ''mp3'']"
    by code_simp
  have h5: "''generic-song'' \<in> set (map (rsplit1_first CHR ''-'')
        [''generic-song-0a1b2c3d.mp3'', ''generic-song-77e0f1aa.mp3''])"
    by code_simp
  from generic_cache_size_check [OF h1 h2 h3 h4 h5] obtain n lsize
    where n: "n \<in> set [''generic-song-0a1b2c3d.mp3'', ''generic-song-77e0f1aa.mp3'']"
      and sz: "os_path_getsize (files generic_cached_world)
                 (os_path_join (download_folder generic_entry) n) = Inr lsize"
      and pf: "\<forall>extract_info. download_try extract_info Probe_fails generic_entry generic_cached_world =
                 (if lsize = 0
                  then (None, generic_entry\<lparr>filename := Some (os_path_join (download_folder generic_entry) n)\<rparr>,
                        generic_cached_world)
                  else really_download extract_info True generic_entry generic_cached_world)"
    by blast
  have pos: "lsize \<noteq> 0"
    using n sz
    by (auto simp: generic_cached_world_def world0_def generic_entry_def URLPlaylistEntry_def
        os_path_join_def os_path_getsize_def)
  have r1: "download_try generic_ytdl Probe_fails generic_entry generic_cached_world =
        really_download generic_ytdl True generic_entry generic_cached_world"
    using pf pos by simp
  have r2: "filename (fst (snd (download_try generic_ytdl (Probe_int 1000) generic_entry
        generic_cached_world))) = Some ''audio_cache/generic-song-0a1b2c3d.mp3''"
    by code_simp
  have r3: "printed (snd (snd (download_try generic_ytdl (Probe_int 1000) generic_entry
        generic_cached_world))) = []"
    by code_simp
  from h1 h2 h3 h4 h5 r1 r2 r3 show ?thesis by blast
qed

text \<open>
  C8. Any other extractor, folder listed as \<open>ldir\<close>. If the expected base name is in
  \<open>ldir\<close>, that file is reused. Otherwise, if its stem (the name without extension)
  is the stem of a listed name, such a file is reused and the mismatch is printed.
  Otherwise the real download runs without hashing.
\<close>

theorem stable_cache_decision:
  assumes "expected_filename e = Some expected"
    and "split_first CHR ''-'' (os_path_basename expected) \<noteq> ''generic''"
    and "os_listdir (files w) (download_folder e) = Inr ldir"
  shows "(os_path_basename expected \<in> set ldir \<longrightarrow>
            download_try extract_info pr e w =
              (None,
               e\<lparr>filename := Some (os_path_join (download_folder e) (os_path_basename expected))\<rparr>,
               w\<lparr>printed := printed w @ [Print_cached]\<rparr>))
       \<and> (os_path_basename expected \<notin> set ldir
            \<and> rsplit1_first CHR ''.'' (os_path_basename expected)
                 \<in> set (map (rsplit1_first CHR ''.'') ldir) \<longrightarrow>
            (\<exists>n \<in> set ldir.
               rsplit1_first CHR ''.'' n = rsplit1_first CHR ''.'' (os_path_basename expected)
               \<and> download_try extract_info pr e w =
                   (None, e\<lparr>filename := Some (os_path_join (download_folder e) n)\<rparr>,
                    w\<lparr>printed := printed w @
                        [Print_cached_different_extension,
                         Print_expected_got (last (rsplit1 CHR ''.'' expected))
                           (last (rsplit1 CHR ''.'' (os_path_join (download_folder e) n)))]\<rparr>)))
       \<and> (os_path_basename expected \<notin> set ldir
            \<and> rsplit1_first CHR ''.'' (os_path_basename expected)
                 \<notin> set (map (rsplit1_first CHR ''.'') ldir) \<longrightarrow>
            download_try extract_info pr e w = really_download extract_info False e w)"
proof (intro conjI impI)
  assume "os_path_basename expected \<in> set ldir"
  then show "download_try extract_info pr e w =
              (None,
               e\<lparr>filename := Some (os_path_join (download_folder e) (os_path_basename expected))\<rparr>,
               w\<lparr>printed := printed w @ [Print_cached]\<rparr>)"
    using assms(3) by (simp add: download_try_stable [OF assms] download_stable_def Let_def)
next
  assume a: "os_path_basename expected \<notin> set ldir
            \<and> rsplit1_first CHR ''.'' (os_path_basename expected)
                 \<in> set (map (rsplit1_first CHR ''.'') ldir)"
  from download_stable_drift [OF assms(3) conjunct1 [OF a] conjunct2 [OF a], of extract_info]
  obtain i where i: "i < length ldir"
    "rsplit1_first CHR ''.'' (ldir ! i) = rsplit1_first CHR ''.'' (os_path_basename expected)"
    "download_stable extract_info e w expected =
               (None, e\<lparr>filename := Some (os_path_join (download_folder e) (ldir ! i))\<rparr>,
                w\<lparr>printed := printed w @
                    [Print_cached_different_extension,
                     Print_expected_got (last (rsplit1 CHR ''.'' expected))
                       (last (rsplit1 CHR ''.'' (os_path_join (download_folder e) (ldir ! i))))]\<rparr>)"
    by blast
  from i(1) have "ldir ! i \<in> set ldir" by simp
  with i(2,3) show "\<exists>n \<in> set ldir.
               rsplit1_first CHR ''.'' n = rsplit1_first CHR ''.'' (os_path_basename expected)
               \<and> download_try extract_info pr e w =
                   (None, e\<lparr>filename := Some (os_path_join (download_folder e) n)\<rparr>,
                    w\<lparr>printed := printed w @
                        [Print_cached_different_extension,
                         Print_expected_got (last (rsplit1 CHR ''.'' expected))
                           (last (rsplit1 CHR ''.'' (os_path_join (download_folder e) n)))]\<rparr>)"
    by (auto simp: download_try_stable [OF assms])
next
  assume "os_path_basename expected \<notin> set ldir
            \<and> rsplit1_first CHR ''.'' (os_path_basename expected)
                 \<notin> set (map (rsplit1_first CHR ''.'') ldir)"
  then show "download_try extract_info pr e w = really_download extract_info False e w"
    using assms(3) by (simp add: download_try_stable [OF assms] download_stable_def Let_def)
qed

theorem stable_cache_decision_witness:
  "expected_filename youtube_entry = Some ''audio_cache/youtube-9R8a-foo.mp3''
   \<and> split_first CHR ''-'' (os_path_basename ''audio_cache/youtube-9R8a-foo.mp3'') \<noteq> ''generic''
   \<and> os_listdir (files exact_world) (download_folder youtube_entry) =
        Inr [''youtube-9R8a-foo.m4a'', ''youtube-9R8a-foo.mp3'']
   \<and> os_path_basename ''audio_cache/youtube-9R8a-foo.mp3''
        \<in> set [''youtube-9R8a-foo.m4a'', ''youtube-9R8a-foo.mp3'']
   \<and> download_try youtube_ytdl Probe_fails youtube_entry exact_world =
        (None,
         youtube_entry\<lparr>filename := Some (os_path_join (download_folder youtube_entry)
            (os_path_basename ''audio_cache/youtube-9R8a-foo.mp3''))\<rparr>,
         exact_world\<lparr>printed := printed exact_world @ [Print_cached]\<rparr>)
   \<and> os_path_join (download_folder youtube_entry)
          (os_path_basename ''audio_cache/youtube-9R8a-foo.mp3'') =
        ''audio_cache/youtube-9R8a-foo.mp3''
   \<and> os_listdir (files drift_world) (download_folder youtube_entry) =
        Inr [''youtube-9R8a-foo.webm'', ''youtube-9R8a-foo.m4a'']
   \<and> os_path_basename ''audio_cache/youtube-9R8a-foo.mp3''
        \<notin> set [''youtube-9R8a-foo.webm'', ''youtube-9R8a-foo.m4a'']
   \<and> rsplit1_first CHR ''.'' (os_path_basename ''audio_cache/youtube-9R8a-foo.mp3'')
        \<in> set (map (rsplit1_first CHR ''.'') [''youtube-9R8a-foo.webm'', ''youtube-9R8a-foo.m4a''])
   \<and> fst (download_try youtube_ytdl Probe_fails youtube_entry drift_world) = None
   \<and> os_listdir (files empty_cache_world) (download_folder youtube_entry) = Inr []
   \<and> download_try youtube_ytdl Probe_fails youtube_entry empty_cache_world =
        really_download youtube_ytdl False youtube_entry empty_cache_world"
proof -
  have h1: "expected_filename youtube_entry = Some ''audio_cache/youtube-9R8a-foo.mp3''"
    by (simp add: youtube_entry_def URLPlaylistEntry_def)
  have h2: "split_first CHR ''-'' (os_path_basename ''audio_cache/youtube-9R8a-foo.mp3'') \<noteq> ''generic''"
    by code_simp
  have l1: "os_listdir (files exact_world) (download_folder youtube_entry) =
        Inr [''youtube-9R8a-foo.m4a'', ''youtube-9R8a-foo.mp3'']"
    by code_simp
  have l2: "os_listdir (files drift_world) (download_folder youtube_entry) =
        Inr [''youtube-9R8a-foo.webm'', ''youtube-9R8a-foo.m4a'']"
    by code_simp
  have l3: "os_listdir (files empty_cache_world) (download_folder youtube_entry) = Inr []"
    by code_simp
  have b: "os_path_basename ''audio_cache/youtube-9R8a-foo.mp3'' = ''youtube-9R8a-foo.mp3''"
    by code_simp
  have st: "rsplit1_first CHR ''.'' ''youtube-9R8a-foo.mp3'' = ''youtube-9R8a-foo''"
    "rsplit1_first CHR ''.'' ''youtube-9R8a-foo.webm'' = ''youtube-9R8a-foo''"
    "rsplit1_first CHR ''.'' ''youtube-9R8a-foo.m4a'' = ''youtube-9R8a-foo''"
    by code_simp+
  have j: "os_path_join (download_folder youtube_entry)
          (os_path_basename ''audio_cache/youtube-9R8a-foo.mp3'') =
        ''audio_cache/youtube-9R8a-foo.mp3''"
    by code_simp
  have c1: "os_path_basename ''audio_cache/youtube-9R8a-foo.mp3''
        \<in> set [''youtube-9R8a-foo.m4a'', ''youtube-9R8a-foo.mp3'']"
    by (simp add: b)
  have c2: "os_path_basename ''audio_cache/youtube-9R8a-foo.mp3''
        \<notin> set [''youtube-9R8a-foo.webm'', ''youtube-9R8a-foo.m4a'']"
    by (simp add: b)
  have c3: "rsplit1_first CHR ''.'' (os_path_basename ''audio_cache/youtube-9R8a-foo.mp3'')
        \<in> set (map (rsplit1_first CHR ''.'') [''youtube-9R8a-foo.webm'', ''youtube-9R8a-foo.m4a''])"
    by (simp add: b st)
  have r1: "download_try youtube_ytdl Probe_fails youtube_entry exact_world =
        (None,
         youtube_entry\<lparr>filename := Some (os_path_join (download_folder youtube_entry)
            (os_path_basename ''audio_cache/youtube-9R8a-foo.mp3''))\<rparr>,
         exact_world\<lparr>printed := printed exact_world @ [Print_cached]\<rparr>)"
    by (rule stable_cache_decision [OF h1 h2 l1, THEN conjunct1, THEN mp, OF c1])
  have r2: "fst (download_try youtube_ytdl Probe_fails youtube_entry drift_world) = None"
  proof -
    from stable_cache_decision [OF h1 h2 l2, THEN conjunct2, THEN conjunct1, THEN mp,
        OF conjI [OF c2 c3]]
    obtain n where "download_try youtube_ytdl Probe_fails youtube_entry drift_world =
       (None, youtube_entry\<lparr>filename := Some (os_path_join (download_folder youtube_entry) n)\<rparr>,
        drift_world\<lparr>printed := printed drift_world @
            [Print_cached_different_extension,
             Print_expected_got (last (rsplit1 CHR ''.'' ''audio_cache/youtube-9R8a-foo.mp3''))
               (last (rsplit1 CHR ''.'' (os_path_join (download_folder youtube_entry) n)))]\<rparr>)"
      by blast
    then show ?thesis by (simp only: fst_conv)
  qed
  have r3: "download_try youtube_ytdl Probe_fails youtube_entry empty_cache_world =
        really_download youtube_ytdl False youtube_entry empty_cache_world"
  proof -
    have "os_path_basename ''audio_cache/youtube-9R8a-foo.mp3'' \<notin> set []
        \<and> rsplit1_first CHR ''.'' (os_path_basename ''audio_cache/youtube-9R8a-foo.mp3'')
             \<notin> set (map (rsplit1_first CHR ''.'') [])"
      by simp
    from stable_cache_decision [OF h1 h2 l3, THEN conjunct2, THEN conjunct2, THEN mp, OF this]
    show ?thesis .
  qed
  show ?thesis
    by (rule conjI h1 h2 l1 c1 r1 j l2 c2 c3 r2 l3 r3)+
qed

lemma download_stable_first:
  assumes "os_listdir (files w) (download_folder e) = Inr ldir"
    and "os_path_basename expected \<notin> set ldir"
    and "rsplit1_first CHR ''.'' (os_path_basename expected) \<in> set (map (rsplit1_first CHR ''.'') ldir)"
  shows "\<exists>i. i < length ldir
           \<and> rsplit1_first CHR ''.'' (ldir ! i) = rsplit1_first CHR ''.'' (os_path_basename expected)
           \<and> (\<forall>j<i. rsplit1_first CHR ''.'' (ldir ! j) \<noteq> rsplit1_first CHR ''.'' (os_path_basename expected))
           \<and> (\<forall>extract_info.
                 fst (download_stable extract_info e w expected) = None
                 \<and> fst (snd (download_stable extract_info e w expected)) =
                     e\<lparr>filename := Some (os_path_join (download_folder e) (ldir ! i))\<rparr>)"
proof -
  let ?noex = "rsplit1_first CHR ''.'' (os_path_basename expected)"
  from index_of_mem [OF assms(3)] obtain i
    where i: "index_of ?noex (map (rsplit1_first CHR ''.'') ldir) = Some i" by blast
  from index_of_SomeD [OF i] have il: "i < length ldir"
    and im: "rsplit1_first CHR ''.'' (ldir ! i) = ?noex"
    and first: "\<forall>j<i. rsplit1_first CHR ''.'' (ldir ! j) \<noteq> ?noex"
    by auto
  have d: "\<forall>extract_info.
                 fst (download_stable extract_info e w expected) = None
                 \<and> fst (snd (download_stable extract_info e w expected)) =
                     e\<lparr>filename := Some (os_path_join (download_folder e) (ldir ! i))\<rparr>"
    using assms i il by (simp add: download_stable_def Let_def)
  show ?thesis
    by (rule exI [of _ i]) (intro conjI il im first d)
qed

text \<open>
  C10. In both stem lookups the position used is the first one whose stem matches:
  no earlier listed name has the stem. In the generic branch only the file at that
  position is measured, and it is the file reused when its size equals the remote
  size (otherwise the real download runs, whatever the later matches are); in the
  other branch the file at that position is the one reused.
\<close>

theorem stem_lookup_takes_first_match:
  assumes "expected_filename e = Some expected"
    and "os_listdir (files w) (download_folder e) = Inr ldir"
  shows "(split_first CHR ''-'' (os_path_basename expected) = ''generic''
          \<and> rsplit1 CHR ''.'' (os_path_basename expected) = [noex, ex]
          \<and> noex \<in> set (map (rsplit1_first CHR ''-'') ldir) \<longrightarrow>
          (\<exists>i lsize. i < length ldir
             \<and> rsplit1_first CHR ''-'' (ldir ! i) = noex
             \<and> (\<forall>j<i. rsplit1_first CHR ''-'' (ldir ! j) \<noteq> noex)
             \<and> os_path_getsize (files w) (os_path_join (download_folder e) (ldir ! i)) = Inr lsize
             \<and> (\<forall>extract_info pr. download_try extract_info pr e w =
                  (if int lsize = (case pr of Probe_fails \<Rightarrow> 0 | Probe_int r \<Rightarrow> r)
                   then (None, e\<lparr>filename := Some (os_path_join (download_folder e) (ldir ! i))\<rparr>, w)
                   else really_download extract_info True e w))))
       \<and> (split_first CHR ''-'' (os_path_basename expected) \<noteq> ''generic''
          \<and> os_path_basename expected \<notin> set ldir
          \<and> rsplit1_first CHR ''.'' (os_path_basename expected)
               \<in> set (map (rsplit1_first CHR ''.'') ldir) \<longrightarrow>
          (\<exists>i. i < length ldir
             \<and> rsplit1_first CHR ''.'' (ldir ! i) = rsplit1_first CHR ''.'' (os_path_basename expected)
             \<and> (\<forall>j<i. rsplit1_first CHR ''.'' (ldir ! j)
                        \<noteq> rsplit1_first CHR ''.'' (os_path_basename expected))
             \<and> (\<forall>extract_info pr.
                  fst (download_try extract_info pr e w) = None
                  \<and> fst (snd (download_try extract_info pr e w)) =
                      e\<lparr>filename := Some (os_path_join (download_folder e) (ldir ! i))\<rparr>)))"
proof (intro conjI impI)
  assume a: "split_first CHR ''-'' (os_path_basename expected) = ''generic''
          \<and> rsplit1 CHR ''.'' (os_path_basename expected) = [noex, ex]
          \<and> noex \<in> set (map (rsplit1_first CHR ''-'') ldir)"
  have g: "split_first CHR ''-'' (os_path_basename expected) = ''generic''"
    by (rule conjunct1 [OF a])
  have r: "rsplit1 CHR ''.'' (os_path_basename expected) = [noex, ex]"
    by (rule conjunct1 [OF conjunct2 [OF a]])
  have m: "noex \<in> set (map (rsplit1_first CHR ''-'') ldir)"
    by (rule conjunct2 [OF conjunct2 [OF a]])
  have t: "\<And>extract_info pr. download_try extract_info pr e w
             = download_generic extract_info pr e w expected"
    by (rule download_try_generic [OF assms(1) g assms(2)])
  show "\<exists>i lsize. i < length ldir
             \<and> rsplit1_first CHR ''-'' (ldir ! i) = noex
             \<and> (\<forall>j<i. rsplit1_first CHR ''-'' (ldir ! j) \<noteq> noex)
             \<and> os_path_getsize (files w) (os_path_join (download_folder e) (ldir ! i)) = Inr lsize
             \<and> (\<forall>extract_info pr. download_try extract_info pr e w =
                  (if int lsize = (case pr of Probe_fails \<Rightarrow> 0 | Probe_int r \<Rightarrow> r)
                   then (None, e\<lparr>filename := Some (os_path_join (download_folder e) (ldir ! i))\<rparr>, w)
                   else really_download extract_info True e w))"
    unfolding t by (rule download_generic_candidate [OF assms(2) r m])
next
  assume a: "split_first CHR ''-'' (os_path_basename expected) \<noteq> ''generic''
          \<and> os_path_basename expected \<notin> set ldir
          \<and> rsplit1_first CHR ''.'' (os_path_basename expected)
               \<in> set (map (rsplit1_first CHR ''.'') ldir)"
  have g: "split_first CHR ''-'' (os_path_basename expected) \<noteq> ''generic''"
    by (rule conjunct1 [OF a])
  have nb: "os_path_basename expected \<notin> set ldir"
    by (rule conjunct1 [OF conjunct2 [OF a]])
  have m: "rsplit1_first CHR ''.'' (os_path_basename expected)
               \<in> set (map (rsplit1_first CHR ''.'') ldir)"
    by (rule conjunct2 [OF conjunct2 [OF a]])
  have t: "\<And>extract_info pr. download_try extract_info pr e w
             = download_stable extract_info e w expected"
    by (rule download_try_stable [OF assms(1) g assms(2)])
  show "\<exists>i. i < length ldir
             \<and> rsplit1_first CHR ''.'' (ldir ! i) = rsplit1_first CHR ''.'' (os_path_basename expected)
             \<and> (\<forall>j<i. rsplit1_first CHR ''.'' (ldir ! j)
                        \<noteq> rsplit1_first CHR ''.'' (os_path_basename expected))
             \<and> (\<forall>extract_info pr.
                  fst (download_try extract_info pr e w) = None
                  \<and> fst (snd (download_try extract_info pr e w)) =
                      e\<lparr>filename := Some (os_path_join (download_folder e) (ldir ! i))\<rparr>)"
    unfolding t using download_stable_first [OF assms(2) nb m] by simp
qed

theorem stem_lookup_takes_first_match_witness:
  "expected_filename generic_entry = Some ''audio_cache/generic-song.mp3''
   \<and> os_listdir (files generic_cached_world) (download_folder generic_entry) =
        Inr [''generic-song-0a1b2c3d.mp3'', ''generic-song-77e0f1aa.mp3'']
   \<and> split_first CHR ''-'' (os_path_basename ''audio_cache/generic-song.mp3'') = ''generic''
   \<and> rsplit1 CHR ''.'' (os_path_basename ''audio_cache/generic-song.mp3'') = [''generic-song'', ''mp3'']
   \<and> ''generic-song'' \<in> set (map (rsplit1_first CHR ''-'')
        [''generic-song-0a1b2c3d.mp3'', ''generic-song-77e0f1aa.mp3''])
   \<and> download_try generic_ytdl (Probe_int 1000) generic_entry generic_cached_world =
        (None,
         generic_entry\<lparr>filename := Some (os_path_join (download_folder generic_entry)
            ''generic-song-0a1b2c3d.mp3'')\<rparr>,
         generic_cached_world)
   \<and> download_try generic_ytdl (Probe_int 1200) generic_entry generic_cached_world =
        really_download generic_ytdl True generic_entry generic_cached_world
   \<and> expected_filename youtube_entry = Some ''audio_cache/youtube-9R8a-foo.mp3''
   \<and> os_listdir (files drift_world) (download_folder youtube_entry) =
        Inr [''youtube-9R8a-foo.webm'', ''youtube-9R8a-foo.m4a'']
   \<and> split_first CHR ''-'' (os_path_basename ''audio_cache/youtube-9R8a-foo.mp3'') \<noteq> ''generic''
   \<and> os_path_basename ''audio_cache/youtube-9R8a-foo.mp3''
        \<notin> set [''youtube-9R8a-foo.webm'', ''youtube-9R8a-foo.m4a'']
   \<and> rsplit1_first CHR ''.'' (os_path_basename ''audio_cache/youtube-9R8a-foo.mp3'')
        \<in> set (map (rsplit1_first CHR ''.'') [''youtube-9R8a-foo.webm'', ''youtube-9R8a-foo.m4a''])
   \<and> fst (snd (download_try youtube_ytdl Probe_fails youtube_entry drift_world)) =
        youtube_entry\<lparr>filename := Some (os_path_join (download_folder youtube_entry)
           ''youtube-9R8a-foo.webm'')\<rparr>"
proof -
  let ?G = "[''generic-song-0a1b2c3d.mp3'', ''generic-song-77e0f1aa.mp3'']"
  let ?Y = "[''youtube-9R8a-foo.webm'', ''youtube-9R8a-foo.m4a'']"
  have g1: "expected_filename generic_entry = Some ''audio_cache/generic-song.mp3''"
    by (simp add: generic_entry_def URLPlaylistEntry_def)
  have g2: "os_listdir (files generic_cached_world) (download_folder generic_entry) = Inr ?G"
    by code_simp
  have g3: "split_first CHR ''-'' (os_path_basename ''audio_cache/generic-song.mp3'') = ''generic''"
    by code_simp
  have g4: "rsplit1 CHR ''.'' (os_path_basename ''audio_cache/generic-song.mp3'') = [''generic-song'', ''mp3'']"
    by code_simp
  have g5: "''generic-song'' \<in> set (map (rsplit1_first CHR ''-'') ?G)"
    by code_simp
  have g6: "rsplit1_first CHR ''-'' (?G ! 0) = ''generic-song''"
    by code_simp
  have g7: "os_path_getsize (files generic_cached_world)
              (os_path_join (download_folder generic_entry) (?G ! 0)) = Inr 1000"
    by code_simp
  from stem_lookup_takes_first_match [OF g1 g2, THEN conjunct1, THEN mp, OF conjI [OF g3 conjI [OF g4 g5]]]
  obtain i lsize where i: "\<forall>j<i. rsplit1_first CHR ''-'' (?G ! j) \<noteq> ''generic-song''"
    and sz: "os_path_getsize (files generic_cached_world)
               (os_path_join (download_folder generic_entry) (?G ! i)) = Inr lsize"
    and dt: "\<forall>extract_info pr. download_try extract_info pr generic_entry generic_cached_world =
                  (if int lsize = (case pr of Probe_fails \<Rightarrow> 0 | Probe_int r \<Rightarrow> r)
                   then (None, generic_entry\<lparr>filename :=
                           Some (os_path_join (download_folder generic_entry) (?G ! i))\<rparr>,
                         generic_cached_world)
                   else really_download extract_info True generic_entry generic_cached_world)"
    by blast
  have i0: "i = 0"
  proof (rule ccontr)
    assume "i \<noteq> 0"
    then have "0 < i" by simp
    with i have "rsplit1_first CHR ''-'' (?G ! 0) \<noteq> ''generic-song''" by blast
    with g6 show False by contradiction
  qed
  have ls: "lsize = 1000"
    using sz g7 unfolding i0 by simp
  have r1: "download_try generic_ytdl (Probe_int 1000) generic_entry generic_cached_world =
        (None,
         generic_entry\<lparr>filename := Some (os_path_join (download_folder generic_entry)
            ''generic-song-0a1b2c3d.mp3'')\<rparr>,
         generic_cached_world)"
    using dt [rule_format, of generic_ytdl "Probe_int 1000"] unfolding i0 ls by simp
  have r2: "download_try generic_ytdl (Probe_int 1200) generic_entry generic_cached_world =
        really_download generic_ytdl True generic_entry generic_cached_world"
    using dt [rule_format, of generic_ytdl "Probe_int 1200"] unfolding i0 ls by simp
  have y1: "expected_filename youtube_entry = Some ''audio_cache/youtube-9R8a-foo.mp3''"
    by (simp add: youtube_entry_def URLPlaylistEntry_def)
  have y2: "os_listdir (files drift_world) (download_folder youtube_entry) = Inr ?Y"
    by code_simp
  have y3: "split_first CHR ''-'' (os_path_basename ''audio_cache/youtube-9R8a-foo.mp3'') \<noteq> ''generic''"
    by code_simp
  have y4: "os_path_basename ''audio_cache/youtube-9R8a-foo.mp3'' \<notin> set ?Y"
    by code_simp
  have y5: "rsplit1_first CHR ''.'' (os_path_basename ''audio_cache/youtube-9R8a-foo.mp3'')
        \<in> set (map (rsplit1_first CHR ''.'') ?Y)"
    by code_simp
  have y6: "rsplit1_first CHR ''.'' (?Y ! 0) =
        rsplit1_first CHR ''.'' (os_path_basename ''audio_cache/youtube-9R8a-foo.mp3'')"
    by code_simp
  from stem_lookup_takes_first_match [OF y1 y2, THEN conjunct2, THEN mp, OF conjI [OF y3 conjI [OF y4 y5]]]
  obtain k where k: "\<forall>j<k. rsplit1_first CHR ''.'' (?Y ! j)
                        \<noteq> rsplit1_first CHR ''.'' (os_path_basename ''audio_cache/youtube-9R8a-foo.mp3'')"
    and dy: "\<forall>extract_info pr.
                  fst (download_try extract_info pr youtube_entry drift_world) = None
                  \<and> fst (snd (download_try extract_info pr youtube_entry drift_world)) =
                      youtube_entry\<lparr>filename :=
                        Some (os_path_join (download_folder youtube_entry) (?Y ! k))\<rparr>"
    by blast
  have k0: "k = 0"
  proof (rule ccontr)
    assume "k \<noteq> 0"
    then have "0 < k" by simp
    with k have "rsplit1_first CHR ''.'' (?Y ! 0)
                        \<noteq> rsplit1_first CHR ''.'' (os_path_basename ''audio_cache/youtube-9R8a-foo.mp3'')"
      by blast
    with y6 show False by contradiction
  qed
  have r3: "fst (snd (download_try youtube_ytdl Probe_fails youtube_entry drift_world)) =
        youtube_entry\<lparr>filename := Some (os_path_join (download_folder youtube_entry)
           ''youtube-9R8a-foo.webm'')\<rparr>"
    using dy [rule_format, of youtube_ytdl Probe_fails] unfolding k0 by simp
  show ?thesis
    by (rule conjI g1 g2 g3 g4 g5 r1 r2 y1 y2 y3 y4 y5 r3)+
qed

section \<open>The resolution pass\<close>

text \<open>
  Facts about the loop of \<^verbatim>\<open>_for_each_future\<close>. The first three hold for every
  callback that leaves alone which handles are cancelled; the last two are about the
  two callbacks the entry uses, which write a value into a pending future and raise
  on any other.
\<close>

lemma for_each_loop_called:
  assumes "\<And>h st st'. cb h st = Inr st' \<Longrightarrow> \<forall>g. (st' g = Cancelled) = (st g = Cancelled)"
  shows "called (for_each_loop cb hs w) = called w @ filter (\<lambda>h. futures w h \<noteq> Cancelled) hs"
proof (induction hs arbitrary: w)
  case Nil
  show ?case by simp
next
  case (Cons h hs)
  show ?case
  proof (cases "futures w h = Cancelled")
    case True
    then show ?thesis by (simp add: Cons.IH)
  next
    case nc: False
    show ?thesis
    proof (cases "cb h (futures w)")
      case (Inl err)
      with nc show ?thesis by (simp add: Cons.IH)
    next
      case (Inr st)
      from assms [OF Inr] have "\<And>g. (st g = Cancelled) = (futures w g = Cancelled)" by blast
      with nc Inr show ?thesis by (simp add: Cons.IH)
    qed
  qed
qed

lemma for_each_loop_cancelled:
  assumes "\<And>h st st'. cb h st = Inr st' \<Longrightarrow> \<forall>g. (st' g = Cancelled) = (st g = Cancelled)"
  shows "(futures (for_each_loop cb hs w) g = Cancelled) = (futures w g = Cancelled)"
proof (induction hs arbitrary: w)
  case Nil
  show ?case by simp
next
  case (Cons h hs)
  show ?case
  proof (cases "futures w h = Cancelled")
    case True
    then show ?thesis by (simp add: Cons.IH)
  next
    case nc: False
    show ?thesis
    proof (cases "cb h (futures w)")
      case (Inl err)
      with nc show ?thesis by (simp add: Cons.IH)
    next
      case (Inr st)
      from assms [OF Inr] have "(st g = Cancelled) = (futures w g = Cancelled)" by blast
      with nc Inr show ?thesis by (simp add: Cons.IH)
    qed
  qed
qed

lemma for_each_loop_frame:
  "files (for_each_loop cb hs w) = files w
   \<and> next_future (for_each_loop cb hs w) = next_future w
   \<and> scheduled (for_each_loop cb hs w) = scheduled w
   \<and> executor_jobs (for_each_loop cb hs w) = executor_jobs w"
  by (induction hs arbitrary: w) (auto split: sum.splits)

lemma for_each_loop_futures:
  assumes "\<And>f st. cb f st = (if st f = Pending then Inr (st(f := v)) else Inl InvalidStateError)"
    and "v \<noteq> Pending"
  shows "futures (for_each_loop cb hs w) h =
           (if h \<in> set hs \<and> futures w h = Pending then v else futures w h)"
  using assms(2)
  by (induction hs arbitrary: w) (auto simp: assms(1))

lemma for_each_loop_printed:
  assumes cb: "\<And>f st. cb f st = (if st f = Pending then Inr (st(f := v)) else Inl InvalidStateError)"
    and "distinct hs"
  shows "printed (for_each_loop cb hs w) =
           printed w @ map (\<lambda>_. Print_traceback InvalidStateError)
             (filter (\<lambda>h. futures w h \<noteq> Cancelled \<and> futures w h \<noteq> Pending) hs)"
  using assms(2)
proof (induction hs arbitrary: w)
  case Nil
  show ?case by simp
next
  case (Cons h hs)
  then have d: "distinct hs" and nh: "h \<notin> set hs" by auto
  note IH = Cons.IH [OF d]
  show ?case
  proof (cases "futures w h = Cancelled")
    case True
    then show ?thesis by (simp add: IH)
  next
    case nc: False
    show ?thesis
    proof (cases "futures w h = Pending")
      case True
      let ?w' = "w\<lparr>futures := (futures w)(h := v), called := called w @ [h]\<rparr>"
      have step: "for_each_loop cb (h # hs) w = for_each_loop cb hs ?w'"
        using nc True by (simp add: cb)
      have "filter (\<lambda>g. futures ?w' g \<noteq> Cancelled \<and> futures ?w' g \<noteq> Pending) hs
           = filter (\<lambda>g. futures w g \<noteq> Cancelled \<and> futures w g \<noteq> Pending) hs"
        using nh by (intro filter_cong) auto
      then have "printed (for_each_loop cb hs ?w') =
           printed w @ map (\<lambda>_. Print_traceback InvalidStateError)
             (filter (\<lambda>g. futures w g \<noteq> Cancelled \<and> futures w g \<noteq> Pending) hs)"
        using IH [of ?w'] by simp
      with True show ?thesis unfolding step by simp
    next
      case False
      let ?w' = "w\<lparr>called := called w @ [h],
                    printed := printed w @ [Print_traceback InvalidStateError]\<rparr>"
      have step: "for_each_loop cb (h # hs) w = for_each_loop cb hs ?w'"
        using nc False by (simp add: cb)
      have "printed (for_each_loop cb hs ?w') =
           (printed w @ [Print_traceback InvalidStateError])
             @ map (\<lambda>_. Print_traceback InvalidStateError)
                 (filter (\<lambda>g. futures w g \<noteq> Cancelled \<and> futures w g \<noteq> Pending) hs)"
        using IH [of ?w'] by simp
      with nc False show ?thesis unfolding step by simp
    qed
  qed
qed

text \<open>
  What a pass prints: one traceback for each exception a callback raises, whatever
  the callback and the exception. For a callback that reads and writes only the
  future it is called on, the exceptions are those it raises on the states the
  handles had before the pass.
\<close>

lemma for_each_loop_printed_raised:
  "printed (for_each_loop cb hs w) =
     printed w @ map Print_traceback (raised_errors cb hs (futures w))"
proof (induction hs arbitrary: w)
  case Nil
  show ?case by simp
next
  case (Cons h hs)
  show ?case
  proof (cases "futures w h = Cancelled")
    case True
    then show ?thesis by (simp add: Cons.IH)
  next
    case nc: False
    show ?thesis
    proof (cases "cb h (futures w)")
      case (Inl err)
      with nc show ?thesis by (simp add: Cons.IH)
    next
      case (Inr st)
      with nc show ?thesis by (simp add: Cons.IH)
    qed
  qed
qed

lemma raised_errors_local:
  assumes cb: "\<And>h st. cb h st =
      (case k h (st h) of Inl err \<Rightarrow> Inl err | Inr v \<Rightarrow> Inr (st(h := v)))"
    and "distinct hs"
  shows "raised_errors cb hs st =
     List.map_filter
       (\<lambda>h. if st h = Cancelled then None
            else (case k h (st h) of Inl err \<Rightarrow> Some err | Inr v \<Rightarrow> None)) hs"
  using assms(2)
proof (induction hs arbitrary: st)
  case Nil
  show ?case by (simp add: map_filter_simps)
next
  case (Cons h hs)
  then have d: "distinct hs" and nh: "h \<notin> set hs" by auto
  note IH = Cons.IH [OF d]
  show ?case
  proof (cases "st h = Cancelled")
    case True
    then show ?thesis by (simp add: IH map_filter_simps)
  next
    case nc: False
    show ?thesis
    proof (cases "k h (st h)")
      case (Inl err)
      then have "cb h st = Inl err" by (simp add: cb [of h st])
      with nc have "raised_errors cb (h # hs) st = err # raised_errors cb hs st" by simp
      with nc Inl show ?thesis by (simp add: IH map_filter_simps)
    next
      case (Inr v)
      have "List.map_filter
         (\<lambda>g. if (st(h := v)) g = Cancelled then None
              else (case k g ((st(h := v)) g) of Inl err \<Rightarrow> Some err | Inr v \<Rightarrow> None)) hs
        = List.map_filter
         (\<lambda>g. if st g = Cancelled then None
              else (case k g (st g) of Inl err \<Rightarrow> Some err | Inr v \<Rightarrow> None)) hs"
        unfolding map_filter_def using nh
        by (intro arg_cong2 [where f = map] filter_cong map_cong refl) auto
      note eq = this
      from Inr have "cb h st = Inr (st(h := v))" by (simp add: cb [of h st])
      with nc have "raised_errors cb (h # hs) st = raised_errors cb hs (st(h := v))" by simp
      with nc Inr eq show ?thesis by (simp add: IH [of "st(h := v)"] map_filter_simps)
    qed
  qed
qed

lemma set_result_keeps_cancelled:
  "set_result h st = Inr st' \<Longrightarrow> \<forall>g. (st' g = Cancelled) = (st g = Cancelled)"
  by (auto simp: set_result_def split: if_splits)

lemma set_exception_keeps_cancelled:
  "set_exception err h st = Inr st' \<Longrightarrow> \<forall>g. (st' g = Cancelled) = (st g = Cancelled)"
  by (auto simp: set_exception_def split: if_splits)

text \<open>
  C6. \<^verbatim>\<open>_for_each_future\<close> empties the waiting list and calls the callback on the
  handles it took out, in their order, leaving out exactly those that are cancelled;
  a callback that raises does not stop the calls on the later handles. A cancelled
  handle stays cancelled. With the entry's own callbacks every pending handle of the
  list ends up holding the result (or the exception), also when the callback raised
  on others. For every callback, each exception it raises is printed as a traceback,
  in order, and nothing else is printed; the pass itself returns normally, since
  every exception of a callback is caught.
\<close>

theorem for_each_future_resolution_pass:
  assumes keeps: "\<forall>h st st'. cb h st = Inr st' \<longrightarrow> (\<forall>g. (st' g = Cancelled) = (st g = Cancelled))"
  shows "waiting_futures (fst (for_each_future cb e w)) = []
       \<and> called (snd (for_each_future cb e w)) =
           called w @ filter (\<lambda>h. futures w h \<noteq> Cancelled) (waiting_futures e)
       \<and> (\<forall>h. futures w h = Cancelled \<longrightarrow> futures (snd (for_each_future cb e w)) h = Cancelled)
       \<and> (\<forall>h. futures (snd (for_each_future set_result e w)) h =
               (if h \<in> set (waiting_futures e) \<and> futures w h = Pending
                then Result_set else futures w h))
       \<and> (\<forall>err h. futures (snd (for_each_future (set_exception err) e w)) h =
               (if h \<in> set (waiting_futures e) \<and> futures w h = Pending
                then Exception_set err else futures w h))
       \<and> (distinct (waiting_futures e) \<longrightarrow>
            printed (snd (for_each_future set_result e w)) =
              printed w @ map (\<lambda>_. Print_traceback InvalidStateError)
                (filter (\<lambda>h. futures w h \<noteq> Cancelled \<and> futures w h \<noteq> Pending)
                   (waiting_futures e)))
       \<and> (\<forall>err. distinct (waiting_futures e) \<longrightarrow>
            printed (snd (for_each_future (set_exception err) e w)) =
              printed w @ map (\<lambda>_. Print_traceback InvalidStateError)
                (filter (\<lambda>h. futures w h \<noteq> Cancelled \<and> futures w h \<noteq> Pending)
                   (waiting_futures e)))
       \<and> printed (snd (for_each_future cb e w)) =
            printed w @ map Print_traceback (raised_errors cb (waiting_futures e) (futures w))
       \<and> (\<forall>k. (\<forall>h st. cb h st =
                   (case k h (st h) of Inl err \<Rightarrow> Inl err | Inr v \<Rightarrow> Inr (st(h := v))))
               \<and> distinct (waiting_futures e) \<longrightarrow>
            printed (snd (for_each_future cb e w)) =
              printed w @ map Print_traceback
                (List.map_filter
                   (\<lambda>h. if futures w h = Cancelled then None
                        else (case k h (futures w h) of Inl err \<Rightarrow> Some err | Inr v \<Rightarrow> None))
                   (waiting_futures e)))"
proof -
  from keeps have assms': "\<And>h st st'. cb h st = Inr st'
      \<Longrightarrow> \<forall>g. (st' g = Cancelled) = (st g = Cancelled)"
    by blast
  show ?thesis
  proof (intro conjI allI impI)
    show "waiting_futures (fst (for_each_future cb e w)) = []"
      by (simp add: for_each_future_def Let_def)
    show "called (snd (for_each_future cb e w)) =
           called w @ filter (\<lambda>h. futures w h \<noteq> Cancelled) (waiting_futures e)"
      by (simp add: for_each_future_def Let_def for_each_loop_called [OF assms'])
    show "futures (snd (for_each_future cb e w)) h = Cancelled" if "futures w h = Cancelled" for h
      using that by (simp add: for_each_future_def Let_def for_each_loop_cancelled [OF assms'])
    show "futures (snd (for_each_future set_result e w)) h =
               (if h \<in> set (waiting_futures e) \<and> futures w h = Pending
                then Result_set else futures w h)" for h
      by (simp add: for_each_future_def Let_def
          for_each_loop_futures [of set_result Result_set, OF set_result_def])
    show "futures (snd (for_each_future (set_exception err) e w)) h =
               (if h \<in> set (waiting_futures e) \<and> futures w h = Pending
                then Exception_set err else futures w h)" for err h
      by (simp add: for_each_future_def Let_def
          for_each_loop_futures [of "set_exception err" "Exception_set err", OF set_exception_def])
    show "printed (snd (for_each_future set_result e w)) =
              printed w @ map (\<lambda>_. Print_traceback InvalidStateError)
                (filter (\<lambda>h. futures w h \<noteq> Cancelled \<and> futures w h \<noteq> Pending)
                   (waiting_futures e))" if "distinct (waiting_futures e)"
      using that by (simp add: for_each_future_def Let_def
          for_each_loop_printed [of set_result Result_set, OF set_result_def])
    show "printed (snd (for_each_future (set_exception err) e w)) =
              printed w @ map (\<lambda>_. Print_traceback InvalidStateError)
                (filter (\<lambda>h. futures w h \<noteq> Cancelled \<and> futures w h \<noteq> Pending)
                   (waiting_futures e))" if "distinct (waiting_futures e)" for err
      using that by (simp add: for_each_future_def Let_def
          for_each_loop_printed [of "set_exception err" "Exception_set err", OF set_exception_def])
    show "printed (snd (for_each_future cb e w)) =
            printed w @ map Print_traceback (raised_errors cb (waiting_futures e) (futures w))"
      by (simp add: for_each_future_def Let_def for_each_loop_printed_raised)
    show "printed (snd (for_each_future cb e w)) =
              printed w @ map Print_traceback
                (List.map_filter
                   (\<lambda>h. if futures w h = Cancelled then None
                        else (case k h (futures w h) of Inl err \<Rightarrow> Some err | Inr v \<Rightarrow> None))
                   (waiting_futures e))"
      if loc: "(\<forall>h st. cb h st =
                   (case k h (st h) of Inl err \<Rightarrow> Inl err | Inr v \<Rightarrow> Inr (st(h := v))))
               \<and> distinct (waiting_futures e)" for k
    proof -
      from loc have c: "\<And>h st. cb h st =
          (case k h (st h) of Inl err \<Rightarrow> Inl err | Inr v \<Rightarrow> Inr (st(h := v)))"
        and d: "distinct (waiting_futures e)"
        by blast+
      have "printed (snd (for_each_future cb e w)) =
            printed w @ map Print_traceback (raised_errors cb (waiting_futures e) (futures w))"
        by (simp add: for_each_future_def Let_def for_each_loop_printed_raised)
      then show ?thesis
        by (simp only: raised_errors_local [of cb k, OF c d])
    qed
  qed
qed

theorem for_each_future_resolution_pass_witness:
  "distinct (waiting_futures pass_entry)
   \<and> waiting_futures pass_entry = [0, 1, 2, 3]
   \<and> futures pass_world 0 = Result_set
   \<and> futures pass_world 1 = Cancelled
   \<and> waiting_futures (fst (for_each_future set_result pass_entry pass_world)) = []
   \<and> called (snd (for_each_future set_result pass_entry pass_world)) = [0, 2, 3]
   \<and> futures (snd (for_each_future set_result pass_entry pass_world)) 1 = Cancelled
   \<and> futures (snd (for_each_future set_result pass_entry pass_world)) 2 = Result_set
   \<and> futures (snd (for_each_future set_result pass_entry pass_world)) 3 = Result_set
   \<and> printed (snd (for_each_future set_result pass_entry pass_world)) =
        [Print_traceback InvalidStateError]
   \<and> called (snd (for_each_future keyerror_callback pass_entry pass_world)) = [0, 2, 3]
   \<and> printed (snd (for_each_future keyerror_callback pass_entry pass_world)) =
        [Print_traceback InvalidStateError, Print_traceback KeyError]"
proof -
  have wf: "waiting_futures pass_entry = [0, 1, 2, 3]"
    by (simp add: pass_entry_def)
  have d: "distinct (waiting_futures pass_entry)"
    by (simp add: wf)
  have f: "futures pass_world 0 = Result_set" "futures pass_world 1 = Cancelled"
    "futures pass_world 2 = Pending" "futures pass_world 3 = Pending"
    "called pass_world = []" "printed pass_world = []"
    by (simp_all add: pass_world_def world0_def)
  have fut: "futures pass_world =
      (\<lambda>h. if h = 0 then Result_set else if h = 1 then Cancelled else Pending)"
    by (simp add: pass_world_def world0_def)
  have keeps: "\<forall>h st st'. set_result h st = Inr st'
      \<longrightarrow> (\<forall>g. (st' g = Cancelled) = (st g = Cancelled))"
    using set_result_keeps_cancelled by blast
  note t = for_each_future_resolution_pass [of set_result pass_entry pass_world, OF keeps]
  have a: "waiting_futures (fst (for_each_future set_result pass_entry pass_world)) = []"
    using t by blast
  have b: "called (snd (for_each_future set_result pass_entry pass_world)) = [0, 2, 3]"
    using t [THEN conjunct2, THEN conjunct1] by (simp add: wf fut f(5,6))
  have c: "futures (snd (for_each_future set_result pass_entry pass_world)) 1 = Cancelled"
    using t [THEN conjunct2, THEN conjunct2, THEN conjunct1] f(2) by blast
  have r: "\<And>h. futures (snd (for_each_future set_result pass_entry pass_world)) h =
               (if h \<in> set (waiting_futures pass_entry) \<and> futures pass_world h = Pending
                then Result_set else futures pass_world h)"
    using t [THEN conjunct2, THEN conjunct2, THEN conjunct2, THEN conjunct1] by blast
  have r2: "futures (snd (for_each_future set_result pass_entry pass_world)) 2 = Result_set"
    by (simp add: r wf fut)
  have r3: "futures (snd (for_each_future set_result pass_entry pass_world)) 3 = Result_set"
    by (simp add: r wf fut)
  have p: "printed (snd (for_each_future set_result pass_entry pass_world)) =
        [Print_traceback InvalidStateError]"
    using t [THEN conjunct2, THEN conjunct2, THEN conjunct2, THEN conjunct2, THEN conjunct2,
        THEN conjunct1, THEN mp, OF d]
    by (simp add: wf fut f(5,6))
  have keeps_k: "\<forall>h st st'. keyerror_callback h st = Inr st'
      \<longrightarrow> (\<forall>g. (st' g = Cancelled) = (st g = Cancelled))"
    by (auto simp: keyerror_callback_def set_result_def split: if_splits)
  note u = for_each_future_resolution_pass [of keyerror_callback pass_entry pass_world,
      OF keeps_k]
  have kb: "called (snd (for_each_future keyerror_callback pass_entry pass_world)) = [0, 2, 3]"
    using u [THEN conjunct2, THEN conjunct1] by (simp add: wf fut f(5,6))
  have kp: "printed (snd (for_each_future keyerror_callback pass_entry pass_world)) =
        [Print_traceback InvalidStateError, Print_traceback KeyError]"
    using u [THEN conjunct2, THEN conjunct2, THEN conjunct2, THEN conjunct2, THEN conjunct2,
        THEN conjunct2, THEN conjunct2, THEN conjunct1]
    by (simp add: wf fut f(5,6) keyerror_callback_def set_result_def)
  show ?thesis
    by (rule conjI d wf f(1) f(2) a b c r2 r3 p kb kp)+
qed

section \<open>A URL entry on the event loop: the invariant\<close>

text \<open>
  The \<^verbatim>\<open>try\<close> block writes the entry's filename, the file system and the output, and
  nothing else: not the waiting list, the flag, the futures or the scheduled
  coroutines.
\<close>

lemma really_download_frame:
  assumes "really_download extract_info hash e w = (r, e', w')"
  shows "waiting_futures e' = waiting_futures e \<and> is_downloading e' = is_downloading e
       \<and> futures w' = futures w \<and> next_future w' = next_future w
       \<and> scheduled w' = scheduled w \<and> called w' = called w"
  using assms
  by (auto simp: really_download_def Let_def
      split: prod.splits extract_outcome.splits sum.splits if_splits)

lemma download_generic_frame:
  assumes "download_generic extract_info pr e w expected = (r, e', w')"
  shows "waiting_futures e' = waiting_futures e \<and> is_downloading e' = is_downloading e
       \<and> futures w' = futures w \<and> next_future w' = next_future w
       \<and> scheduled w' = scheduled w \<and> called w' = called w"
  using assms
  by (auto simp: download_generic_def Let_def dest!: really_download_frame
      split: sum.splits list.splits option.splits if_splits)

lemma download_stable_frame:
  assumes "download_stable extract_info e w expected = (r, e', w')"
  shows "waiting_futures e' = waiting_futures e \<and> is_downloading e' = is_downloading e
       \<and> futures w' = futures w \<and> next_future w' = next_future w
       \<and> scheduled w' = scheduled w \<and> called w' = called w"
  using assms
  by (auto simp: download_stable_def Let_def dest!: really_download_frame
      split: sum.splits option.splits if_splits)

lemma download_try_frame:
  assumes "download_try extract_info pr e w = (r, e', w')"
  shows "waiting_futures e' = waiting_futures e \<and> is_downloading e' = is_downloading e
       \<and> futures w' = futures w \<and> next_future w' = next_future w
       \<and> scheduled w' = scheduled w \<and> called w' = called w"
proof -
  have g: "\<And>w1. download_generic extract_info pr e w1 expected = (r, e', w') \<Longrightarrow>
      waiting_futures e' = waiting_futures e \<and> is_downloading e' = is_downloading e
       \<and> futures w' = futures w1 \<and> next_future w' = next_future w1
       \<and> scheduled w' = scheduled w1 \<and> called w' = called w1" for expected
    by (rule download_generic_frame)
  have s: "\<And>w1. download_stable extract_info e w1 expected = (r, e', w') \<Longrightarrow>
      waiting_futures e' = waiting_futures e \<and> is_downloading e' = is_downloading e
       \<and> futures w' = futures w1 \<and> next_future w' = next_future w1
       \<and> scheduled w' = scheduled w1 \<and> called w' = called w1" for expected
    by (rule download_stable_frame)
  show ?thesis
    using assms
    by (auto simp: download_try_def Let_def dest!: g s
        split: sum.splits option.splits if_splits)
qed

section \<open>Waiting handles of an Osu entry\<close>

text \<open>
  C3. A caller asks a fresh Osu entry for readiness: the handle is appended and a
  \<^verbatim>\<open>_download\<close> coroutine is scheduled. The coroutine runs, the thread-pool job
  downloads the beatmap and sets the filename. Nothing calls
  \<^verbatim>\<open>_for_each_future\<close>: the handle is still pending and still in the waiting list,
  with nothing scheduled and no job left, while the entry reports itself downloaded
  and resolves a second caller's handle at once.
\<close>

theorem osu_handle_never_resolved:
  "(let s = osu_run (osu_init ''39804'' [])
              [Osu_get_ready_future, Osu_start_download True,
               Osu_job_done (Job_audio ''audio_cache/39804/audio.mp3''), Osu_get_ready_future]
    in waiting_futures (oent s) = [0]
       \<and> futures (owld s) 0 = Pending
       \<and> futures (owld s) 1 = Result_set
       \<and> called (owld s) = [1]
       \<and> scheduled (owld s) = 0
       \<and> executor_jobs (owld s) = 0
       \<and> is_downloaded (oent s))"
  by code_simp

text \<open>
  The same for every sequence of events on an Osu entry: a handle that is in the
  waiting list stays there, and never holds a result or an exception.
\<close>

lemma osu_step_waiting:
  "\<exists>new. waiting_futures (oent (osu_step s ev)) = waiting_futures (oent s) @ new"
  by (cases ev)
    (auto simp: osu_step_def get_ready_future_def osu_download_def osu_really_download_def
      Let_def split: osu_job.splits)

lemma osu_run_waiting:
  "\<exists>new. waiting_futures (oent (osu_run s evs)) = waiting_futures (oent s) @ new"
proof (induction evs arbitrary: s)
  case Nil
  show ?case by (simp add: osu_run_def)
next
  case (Cons ev evs)
  from Cons.IH [of "osu_step s ev"] obtain new1
    where a: "waiting_futures (oent (osu_run (osu_step s ev) evs)) =
                waiting_futures (oent (osu_step s ev)) @ new1"
    by blast
  from osu_step_waiting [of s ev] obtain new0
    where b: "waiting_futures (oent (osu_step s ev)) = waiting_futures (oent s) @ new0"
    by blast
  have "osu_run s (ev # evs) = osu_run (osu_step s ev) evs"
    by (simp add: osu_run_def)
  with a b show ?case by simp
qed

lemma osu_step_unresolved:
  assumes "\<forall>h \<in> set (waiting_futures (oent s)).
             h < next_future (owld s) \<and> futures (owld s) h \<noteq> Result_set
             \<and> (\<forall>err. futures (owld s) h \<noteq> Exception_set err)"
  shows "\<forall>h \<in> set (waiting_futures (oent (osu_step s ev))).
             h < next_future (owld (osu_step s ev)) \<and> futures (owld (osu_step s ev)) h \<noteq> Result_set
             \<and> (\<forall>err. futures (owld (osu_step s ev)) h \<noteq> Exception_set err)"
  using assms
  by (cases ev)
    (auto simp: osu_step_def get_ready_future_def osu_download_def osu_really_download_def
      cancel_def Let_def less_Suc_eq split: osu_job.splits)

lemma osu_run_unresolved:
  assumes "\<forall>h \<in> set (waiting_futures (oent s)).
             h < next_future (owld s) \<and> futures (owld s) h \<noteq> Result_set
             \<and> (\<forall>err. futures (owld s) h \<noteq> Exception_set err)"
  shows "\<forall>h \<in> set (waiting_futures (oent (osu_run s evs))).
             h < next_future (owld (osu_run s evs)) \<and> futures (owld (osu_run s evs)) h \<noteq> Result_set
             \<and> (\<forall>err. futures (owld (osu_run s evs)) h \<noteq> Exception_set err)"
  using assms
proof (induction evs arbitrary: s)
  case Nil
  then show ?case by (simp add: osu_run_def)
next
  case (Cons ev evs)
  have "osu_run s (ev # evs) = osu_run (osu_step s ev) evs"
    by (simp add: osu_run_def)
  with Cons.IH [OF osu_step_unresolved [OF Cons.prems]] show ?case by simp
qed

lemma osu_waiting_handle_stays_unresolved:
  assumes "h \<in> set (waiting_futures (oent (osu_run (osu_init i fs0) evs)))"
  shows "h \<in> set (waiting_futures (oent (osu_run (osu_init i fs0) (evs @ later))))
       \<and> futures (owld (osu_run (osu_init i fs0) (evs @ later))) h \<noteq> Result_set
       \<and> (\<forall>err. futures (owld (osu_run (osu_init i fs0) (evs @ later))) h \<noteq> Exception_set err)"
proof -
  have run: "osu_run (osu_init i fs0) (evs @ later) = osu_run (osu_run (osu_init i fs0) evs) later"
    by (simp add: osu_run_def)
  from osu_run_waiting [of "osu_run (osu_init i fs0) evs" later] assms
  have mem: "h \<in> set (waiting_futures (oent (osu_run (osu_init i fs0) (evs @ later))))"
    unfolding run by auto
  have "\<forall>h \<in> set (waiting_futures (oent (osu_init i fs0))).
             h < next_future (owld (osu_init i fs0))
             \<and> futures (owld (osu_init i fs0)) h \<noteq> Result_set
             \<and> (\<forall>err. futures (owld (osu_init i fs0)) h \<noteq> Exception_set err)"
    by (simp add: osu_init_def OsuPlaylistEntry_def)
  from osu_run_unresolved [OF this, of "evs @ later"] mem show ?thesis by blast
qed

text \<open>
  The end of a coroutine either runs one resolution pass, which resolves every
  pending handle of the waiting list and empties the list, or (when the task was
  cancelled) only resets the flag. With that, the invariant holds after every event.
\<close>

lemma download_finish_pass:
  assumes "download_finish r e w = (e', w')"
    and "r \<noteq> Some CancelledError"
  shows "\<exists>v. is_done v
       \<and> waiting_futures e' = [] \<and> \<not> is_downloading e'
       \<and> called w' = called w @ filter (\<lambda>h. futures w h \<noteq> Cancelled) (waiting_futures e)
       \<and> (\<forall>h. futures w' h =
             (if h \<in> set (waiting_futures e) \<and> futures w h = Pending then v else futures w h))
       \<and> next_future w' = next_future w \<and> scheduled w' = scheduled w"
proof (cases r)
  case None
  have "is_done Result_set" by (simp add: is_done_def)
  moreover have "waiting_futures e' = [] \<and> \<not> is_downloading e'
       \<and> called w' = called w @ filter (\<lambda>h. futures w h \<noteq> Cancelled) (waiting_futures e)
       \<and> (\<forall>h. futures w' h =
             (if h \<in> set (waiting_futures e) \<and> futures w h = Pending then Result_set
              else futures w h))
       \<and> next_future w' = next_future w \<and> scheduled w' = scheduled w"
    using assms(1) None
    by (auto simp: download_finish_def for_each_future_def Let_def
        for_each_loop_called [OF set_result_keeps_cancelled]
        for_each_loop_futures [of set_result Result_set, OF set_result_def]
        for_each_loop_frame)
  ultimately show ?thesis by blast
next
  case (Some err)
  with assms(2) have ex: "is_Exception err" by (simp add: is_Exception_def)
  have "is_done (Exception_set err)" by (simp add: is_done_def)
  moreover have "waiting_futures e' = [] \<and> \<not> is_downloading e'
       \<and> called w' = called w @ filter (\<lambda>h. futures w h \<noteq> Cancelled) (waiting_futures e)
       \<and> (\<forall>h. futures w' h =
             (if h \<in> set (waiting_futures e) \<and> futures w h = Pending then Exception_set err
              else futures w h))
       \<and> next_future w' = next_future w \<and> scheduled w' = scheduled w"
    using assms(1) Some ex
    by (auto simp: download_finish_def for_each_future_def Let_def
        for_each_loop_called [OF set_exception_keeps_cancelled]
        for_each_loop_futures [of "set_exception err" "Exception_set err", OF set_exception_def]
        for_each_loop_frame)
  ultimately show ?thesis by blast
qed

lemma download_finish_cancelled:
  "download_finish (Some CancelledError) e w = (e\<lparr>is_downloading := False\<rparr>, w)"
  by (simp add: download_finish_def is_Exception_def)

lemma url_inv_init: "url_inv (url_init e fs0)"
  by (simp add: url_inv_def url_init_def world0_def)

lemma url_inv_get_ready: "url_inv s \<Longrightarrow> url_inv (url_step s Get_ready_future)"
  by (auto simp: url_inv_def url_step_def get_ready_future_def Let_def is_done_def
      less_Suc_eq is_downloaded_def)

lemma url_inv_cancel: "url_inv s \<Longrightarrow> url_inv (url_step s (Cancel f))"
  by (auto simp: url_inv_def url_step_def cancel_def is_done_def)

lemma url_inv_start: "url_inv s \<Longrightarrow> url_inv (url_step s Start_download)"
  by (auto simp: url_inv_def url_step_def Let_def)

lemma url_inv_finish:
  assumes inv: "url_inv s"
  shows "url_inv (url_step s (Finish_download extract_info pr))"
proof (cases "running s = 0")
  case True
  with inv show ?thesis by (simp add: url_step_def)
next
  case False
  obtain r e1 w1 where dt: "download_try extract_info pr (ent s) (wld s) = (r, e1, w1)"
    by (cases "download_try extract_info pr (ent s) (wld s)") auto
  obtain e2 w2 where df: "download_finish r e1 w1 = (e2, w2)"
    by (cases "download_finish r e1 w1") auto
  have step: "url_step s (Finish_download extract_info pr) =
      s\<lparr>ent := e2, wld := w2, running := running s - 1\<rparr>"
    using False dt df by (simp add: url_step_def)
  from download_try_frame [OF dt]
  have fr: "waiting_futures e1 = waiting_futures (ent s)"
    "futures w1 = futures (wld s)" "next_future w1 = next_future (wld s)"
    "called w1 = called (wld s)"
    by simp_all
  from inv False have run1: "running s = 1"
    by (simp add: url_inv_def)
  from inv have
    i1: "distinct (waiting_futures (ent s) @ called (wld s))" and
    i2: "\<forall>h \<in> set (waiting_futures (ent s)) \<union> set (called (wld s)). h < next_future (wld s)" and
    i3: "\<forall>h < next_future (wld s).
            h \<in> set (waiting_futures (ent s)) \<or> h \<in> set (called (wld s))
            \<or> futures (wld s) h = Cancelled" and
    i4: "\<forall>h \<in> set (called (wld s)). is_done (futures (wld s) h)" and
    i5: "\<forall>h \<in> set (waiting_futures (ent s)).
            futures (wld s) h = Pending \<or> futures (wld s) h = Cancelled"
    by (simp_all add: url_inv_def)
  show ?thesis
  proof (cases "r = Some CancelledError")
    case True
    with df have "e2 = e1\<lparr>is_downloading := False\<rparr>" "w2 = w1"
      by (simp_all add: download_finish_cancelled)
    with i1 i2 i3 i4 i5 run1 fr show ?thesis
      unfolding step by (simp add: url_inv_def)
  next
    case nc: False
    from download_finish_pass [OF df nc] obtain v where v: "is_done v"
      and e2: "waiting_futures e2 = []" "\<not> is_downloading e2"
      and c2: "called w2 = called w1 @ filter (\<lambda>h. futures w1 h \<noteq> Cancelled) (waiting_futures e1)"
      and f2: "\<forall>h. futures w2 h =
             (if h \<in> set (waiting_futures e1) \<and> futures w1 h = Pending then v else futures w1 h)"
      and n2: "next_future w2 = next_future w1"
      by blast
    have vn: "v \<noteq> Cancelled" using v by (auto simp: is_done_def)
    have d: "distinct (called w2)"
      using i1 by (auto simp: c2 fr)
    have b: "\<forall>h \<in> set (called w2). h < next_future w2"
      using i2 by (auto simp: c2 fr n2)
    have t: "\<forall>h < next_future w2. h \<in> set (called w2) \<or> futures w2 h = Cancelled"
      using i3 i5 by (auto simp: c2 fr n2 f2)
    have dn: "\<forall>h \<in> set (called w2). is_done (futures w2 h)"
      using i1 i4 i5 v by (auto simp: c2 fr f2)
    from d b t dn e2 run1 show ?thesis
      unfolding step by (simp add: url_inv_def)
  qed
qed

lemma url_inv_step: "url_inv s \<Longrightarrow> url_inv (url_step s ev)"
  by (cases ev) (simp_all add: url_inv_get_ready url_inv_cancel url_inv_start url_inv_finish)

lemma url_inv_run: "url_inv s \<Longrightarrow> url_inv (url_run s evs)"
proof (induction evs arbitrary: s)
  case Nil
  then show ?case by (simp add: url_run_def)
next
  case (Cons ev evs)
  have "url_run s (ev # evs) = url_run (url_step s ev) evs"
    by (simp add: url_run_def)
  with Cons.IH [OF url_inv_step [OF Cons.prems]] show ?case by simp
qed

text \<open>
  For a URL entry, after every sequence of events: the entry has called
  \<^verbatim>\<open>set_result\<close> or \<^verbatim>\<open>set_exception\<close> on no handle twice, at most one coroutine is past
  the flag test, and every handle is either still waiting, or was resolved once and
  is done, or was cancelled by its owner and passed over. And the end of a coroutine
  that was not cancelled empties the waiting list and resolves in that same step
  every handle of it that its owner had not cancelled.
\<close>

lemma url_handles_resolved_once:
  assumes s_def: "s = url_run (url_init e fs0) evs"
  shows "distinct (called (wld s))
       \<and> running s \<le> 1
       \<and> (\<forall>h < next_future (wld s).
             (h \<in> set (waiting_futures (ent s)) \<and> h \<notin> set (called (wld s)))
             \<or> (h \<in> set (called (wld s)) \<and> h \<notin> set (waiting_futures (ent s))
                 \<and> is_done (futures (wld s) h))
             \<or> (futures (wld s) h = Cancelled \<and> h \<notin> set (waiting_futures (ent s))
                 \<and> h \<notin> set (called (wld s))))"
proof -
  have "url_inv s"
    unfolding s_def by (rule url_inv_run [OF url_inv_init])
  then show ?thesis
    by (auto simp: url_inv_def)
qed

lemma url_finish_resolves_waiting:
  assumes s_def: "s = url_run (url_init e fs0) evs"
    and s'_def: "s' = url_step s (Finish_download extract_info pr)"
    and "0 < running s"
    and "fst (download_try extract_info pr (ent s) (wld s)) \<noteq> Some CancelledError"
  shows "waiting_futures (ent s') = []
       \<and> \<not> is_downloading (ent s')
       \<and> (\<forall>h \<in> set (waiting_futures (ent s)).
             futures (wld s') h = Cancelled
             \<or> (is_done (futures (wld s') h) \<and> h \<in> set (called (wld s'))
                 \<and> h \<notin> set (called (wld s))))"
proof -
  have inv: "url_inv s"
    unfolding s_def by (rule url_inv_run [OF url_inv_init])
  obtain r e1 w1 where dt: "download_try extract_info pr (ent s) (wld s) = (r, e1, w1)"
    by (cases "download_try extract_info pr (ent s) (wld s)") auto
  obtain e2 w2 where df: "download_finish r e1 w1 = (e2, w2)"
    by (cases "download_finish r e1 w1") auto
  have step: "s' = s\<lparr>ent := e2, wld := w2, running := running s - 1\<rparr>"
    unfolding s'_def using assms(3) dt df by (simp add: url_step_def)
  from assms(4) dt have nc: "r \<noteq> Some CancelledError" by simp
  from download_try_frame [OF dt]
  have fr: "waiting_futures e1 = waiting_futures (ent s)"
    "futures w1 = futures (wld s)" "called w1 = called (wld s)"
    by simp_all
  from inv have
    i1: "distinct (waiting_futures (ent s) @ called (wld s))" and
    i5: "\<forall>h \<in> set (waiting_futures (ent s)).
            futures (wld s) h = Pending \<or> futures (wld s) h = Cancelled"
    by (simp_all add: url_inv_def)
  from download_finish_pass [OF df nc] obtain v where v: "is_done v"
    and e2: "waiting_futures e2 = []" "\<not> is_downloading e2"
    and c2: "called w2 = called w1 @ filter (\<lambda>h. futures w1 h \<noteq> Cancelled) (waiting_futures e1)"
    and f2: "\<forall>h. futures w2 h =
           (if h \<in> set (waiting_futures e1) \<and> futures w1 h = Pending then v else futures w1 h)"
    by blast
  have "\<forall>h \<in> set (waiting_futures (ent s)).
             futures w2 h = Cancelled
             \<or> (is_done (futures w2 h) \<and> h \<in> set (called w2) \<and> h \<notin> set (called (wld s)))"
    using i1 i5 v by (auto simp: c2 f2 fr)
  with e2 show ?thesis
    unfolding step by simp
qed

end
